theory Spec2Isabelle
  imports Complex_Main "HOL-Library.AList" "HOL-Library.Signed_Division" "HOL-Library.Sublist"
begin

unbundle bit_operations_syntax

section \<open>CyberAsio Core: a shallow embedding of the C++ backend\<close>

text \<open>
  The development follows the sources under \<^verbatim>\<open>cpp-backend/src\<close>: the configuration
  manager (\<^verbatim>\<open>config_manager.cpp\<close>), the audio engine with its metrics producer
  (\<^verbatim>\<open>audio_engine.cpp\<close>) and the HTTP server (\<^verbatim>\<open>webserver.cpp\<close>).

  Conventions of the embedding.
  \<^item> A C++ \<^verbatim>\<open>int\<close> is a HOL \<open>int\<close>. The validation functions compare such values
    and take \<open>buffer_size - 1\<close> only where \<open>buffer_size \<ge> 32\<close> has been established
    (the \<^verbatim>\<open>&&\<close> is short-circuit), so they never leave the range of a machine
    integer. The one product of two \<^verbatim>\<open>int\<close>s in the sources is commented where it is
    embedded.
  \<^item> A \<^verbatim>\<open>std::string\<close> is a \<open>string\<close> (list of bytes); a \<^verbatim>\<open>std::map\<close> is an
    association list with at most one entry per key, written through \<open>AList.update\<close>
    as \<^verbatim>\<open>operator[]\<close> followed by assignment does.
  \<^item> A member function that mutates its object takes the object and returns the new
    one, paired with the return value where there is one.
  \<^item> Output on \<^verbatim>\<open>std::cout\<close> and \<^verbatim>\<open>std::cerr\<close> is not part of the model.
  \<^item> Names are those of the sources. Where two classes have a member of the same name,
    or a name is taken, the name is extended: \<^verbatim>\<open>AudioEngine::stop\<close> is
    \<open>AudioEngine_stop\<close> and \<^verbatim>\<open>WebServer::stop\<close> is \<open>stop\<close>; the field \<^verbatim>\<open>id\<close> of a
    device is \<open>device_id\<close>, the field \<^verbatim>\<open>method\<close> of a route is \<open>route_method\<close>.
\<close>

section \<open>Definitions\<close>

subsection \<open>Audio configuration (\<^verbatim>\<open>audio_engine.h\<close>, \<^verbatim>\<open>config_manager.h\<close>)\<close>

record AudioConfig =
  sample_rate :: int
  buffer_size :: int
  bit_depth :: int
  channels :: int

record SystemConfig =
  audio :: AudioConfig
  active_device_id :: int
  current_audio_file :: string
  auto_save :: bool
  config_file_path :: string

text \<open>
  The configuration manager. The change callback is a \<^verbatim>\<open>std::function\<close> supplied by
  the caller: the model keeps whether one is installed and the list of configurations
  it has been called with, oldest first.
\<close>

record ConfigManager =
  system_config :: SystemConfig
  device_profiles :: "(int \<times> AudioConfig) list"
  config_change_callback :: bool
  notifications :: "SystemConfig list"

subsection \<open>Configuration manager (\<^verbatim>\<open>config_manager.cpp\<close>)\<close>

definition getDefaultAudioConfig :: AudioConfig where
  "getDefaultAudioConfig =
     \<lparr>sample_rate = 48000, buffer_size = 256, bit_depth = 24, channels = 2\<rparr>"

definition getDefaultSystemConfig :: SystemConfig where
  "getDefaultSystemConfig =
     \<lparr>audio = getDefaultAudioConfig, active_device_id = - 1,
      current_audio_file = ''T-Rex Roar (Default)'', auto_save = True,
      config_file_path = ''config.txt''\<rparr>"

text \<open>The constructor: no profiles, no callback, \<^verbatim>\<open>initializeDefaults()\<close>.\<close>

definition initializeDefaults :: ConfigManager where
  "initializeDefaults =
     \<lparr>system_config = getDefaultSystemConfig, device_profiles = [],
      config_change_callback = False, notifications = []\<rparr>"

definition isValidSampleRate :: "int \<Rightarrow> bool" where
  "isValidSampleRate r \<longleftrightarrow> r \<in> set [44100, 48000, 88200, 96000, 192000]"

definition isValidBufferSize :: "int \<Rightarrow> bool" where
  "isValidBufferSize b \<longleftrightarrow> b \<ge> 32 \<and> b \<le> 2048 \<and> (b AND (b - 1)) = 0"

definition isValidBitDepth :: "int \<Rightarrow> bool" where
  "isValidBitDepth d \<longleftrightarrow> d = 16 \<or> d = 24 \<or> d = 32"

definition validateAudioConfig :: "AudioConfig \<Rightarrow> bool" where
  "validateAudioConfig cfg \<longleftrightarrow>
     isValidSampleRate (sample_rate cfg) \<and>
     isValidBufferSize (buffer_size cfg) \<and>
     isValidBitDepth (bit_depth cfg) \<and>
     channels cfg > 0 \<and> channels cfg \<le> 8"

definition validateConfig :: "SystemConfig \<Rightarrow> bool" where
  "validateConfig c \<longleftrightarrow> validateAudioConfig (audio c) \<and> active_device_id c \<ge> - 1"

definition notifyConfigChanged :: "ConfigManager \<Rightarrow> ConfigManager" where
  "notifyConfigChanged m =
     (if config_change_callback m
      then m\<lparr>notifications := notifications m @ [system_config m]\<rparr>
      else m)"

definition getAudioConfig :: "ConfigManager \<Rightarrow> AudioConfig" where
  "getAudioConfig m = audio (system_config m)"

definition setSystemConfig :: "SystemConfig \<Rightarrow> ConfigManager \<Rightarrow> bool \<times> ConfigManager" where
  "setSystemConfig c m =
     (if \<not> validateConfig c then (False, m)
      else (True, notifyConfigChanged (m\<lparr>system_config := c\<rparr>)))"

definition setAudioConfig :: "AudioConfig \<Rightarrow> ConfigManager \<Rightarrow> bool \<times> ConfigManager" where
  "setAudioConfig cfg m =
     (if \<not> validateAudioConfig cfg then (False, m)
      else (True, notifyConfigChanged (m\<lparr>system_config := (system_config m)\<lparr>audio := cfg\<rparr>\<rparr>)))"

definition setConfigChangeCallback :: "ConfigManager \<Rightarrow> ConfigManager" where
  "setConfigChangeCallback m = m\<lparr>config_change_callback := True\<rparr>"

subsection \<open>Audio engine (\<^verbatim>\<open>audio_engine.h\<close>, \<^verbatim>\<open>audio_engine.cpp\<close>)\<close>

text \<open>
  A \<^verbatim>\<open>double\<close> or \<^verbatim>\<open>float\<close> is modelled by the real number it denotes; rounding is
  not part of the model. The constants \<^verbatim>\<open>0.1f\<close>, \<^verbatim>\<open>0.5f\<close>, \<^verbatim>\<open>1.0f\<close> are the reals
  \<open>1/10\<close>, \<open>1/2\<close>, \<open>1\<close>.
\<close>

record AudioMetrics =
  input_latency :: real
  output_latency :: real
  total_latency :: real
  spectrum_data :: "real list"
  is_playing :: bool

text \<open>
  The engine object. Of \<^verbatim>\<open>audio_buffer_\<close> only the size is kept: no function reads a
  sample. \<open>audio_thread\<close> says whether the processing thread exists. As for the
  configuration manager, the visualisation callback is recorded by the arguments it
  was called with.
\<close>

record AudioEngine =
  config :: AudioConfig
  initialized :: bool
  playing :: bool
  engine_active_device_id :: int
  audio_buffer_size :: nat
  playback_position :: nat
  audio_thread :: bool
  should_stop :: bool
  current_metrics :: AudioMetrics
  visualization_callback :: bool
  visualized :: "real list list"

text \<open>The default member initialisers of \<^verbatim>\<open>audio_engine.h\<close>.\<close>

definition AudioMetrics_default :: AudioMetrics where
  "AudioMetrics_default =
     \<lparr>input_latency = 0, output_latency = 0, total_latency = 0,
      spectrum_data = [], is_playing = False\<rparr>"

definition AudioEngine_default :: AudioEngine where
  "AudioEngine_default =
     \<lparr>config = \<lparr>sample_rate = 48000, buffer_size = 256, bit_depth = 24, channels = 2\<rparr>,
      initialized = False, playing = False, engine_active_device_id = - 1,
      audio_buffer_size = 0, playback_position = 0, audio_thread = False,
      should_stop = False, current_metrics = AudioMetrics_default,
      visualization_callback = False, visualized = []\<rparr>"

definition calculateLatency :: "AudioEngine \<Rightarrow> AudioEngine" where
  "calculateLatency e =
     (let buffer_time_ms =
            (real_of_int (buffer_size (config e)) / real_of_int (sample_rate (config e))) * 1000;
          m1 = (current_metrics e)\<lparr>input_latency := buffer_time_ms\<rparr>;
          m2 = m1\<lparr>output_latency := buffer_time_ms\<rparr>;
          m3 = m2\<lparr>total_latency := input_latency m2 + output_latency m2\<rparr>
      in e\<lparr>current_metrics := m3\<rparr>)"

text \<open>\<^verbatim>\<open>std::vector<float>::resize(n)\<close>: truncate, or pad with zeros.\<close>

definition resize :: "nat \<Rightarrow> real list \<Rightarrow> real list" where
  "resize n xs = take n xs @ replicate (n - length xs) 0"

definition AudioEngine_stop :: "AudioEngine \<Rightarrow> AudioEngine" where
  "AudioEngine_stop e =
     (let e1 = e\<lparr>playing := False, playback_position := 0\<rparr>;
          m = (current_metrics e1)\<lparr>spectrum_data := replicate 32 0, is_playing := False\<rparr>
      in e1\<lparr>current_metrics := m\<rparr>)"

definition play :: "AudioEngine \<Rightarrow> AudioEngine" where
  "play e = (if \<not> initialized e then e else e\<lparr>playing := True, playback_position := 0\<rparr>)"

definition pause :: "AudioEngine \<Rightarrow> AudioEngine" where
  "pause e = e\<lparr>playing := False\<rparr>"

definition shutdown :: "AudioEngine \<Rightarrow> AudioEngine" where
  "shutdown e =
     (if \<not> initialized e then e
      else (AudioEngine_stop e)\<lparr>should_stop := True, audio_thread := False, initialized := False\<rparr>)"

text \<open>
  \<^verbatim>\<open>generateDefaultAudio\<close> fills the buffer with \<open>44100 * 3\<close> stereo frames of a
  synthetic tone; the model keeps the size.
\<close>

definition generateDefaultAudio :: "AudioEngine \<Rightarrow> AudioEngine" where
  "generateDefaultAudio e = e\<lparr>audio_buffer_size := (44100 * 3) * 2\<rparr>"

definition initialize :: "AudioConfig \<Rightarrow> AudioEngine \<Rightarrow> bool \<times> AudioEngine" where
  "initialize cfg e =
     (let e1 = (if initialized e then shutdown e else e);
          e2 = e1\<lparr>config := cfg\<rparr>;
          e3 = e2\<lparr>audio_buffer_size := 44100 * 2 * 10\<rparr>;
          e4 = generateDefaultAudio e3;
          e5 = calculateLatency e4;
          e6 = e5\<lparr>should_stop := False, audio_thread := True\<rparr>
      in (True, e6\<lparr>initialized := True\<rparr>))"

definition setConfig :: "AudioConfig \<Rightarrow> AudioEngine \<Rightarrow> bool \<times> AudioEngine" where
  "setConfig cfg e =
     (if \<not> initialized e then (False, e)
      else
        let needs_restart =
              (sample_rate cfg \<noteq> sample_rate (config e) \<or>
               buffer_size cfg \<noteq> buffer_size (config e) \<or>
               bit_depth cfg \<noteq> bit_depth (config e));
            e1 = e\<lparr>config := cfg\<rparr>
        in (True, if needs_restart then calculateLatency e1 else e1))"

definition getMetrics :: "AudioEngine \<Rightarrow> AudioMetrics" where
  "getMetrics e = current_metrics e"

definition setVisualizationCallback :: "AudioEngine \<Rightarrow> AudioEngine" where
  "setVisualizationCallback e = e\<lparr>visualization_callback := True\<rparr>"

definition setActiveDevice :: "int \<Rightarrow> AudioEngine \<Rightarrow> bool \<times> AudioEngine" where
  "setActiveDevice d e = (True, e\<lparr>engine_active_device_id := d\<rparr>)"

text \<open>
  \<^verbatim>\<open>processAudioBuffer\<close>. The sample count is an \<^verbatim>\<open>int\<close> expression, with the
  division of C++ that truncates, converted to \<^verbatim>\<open>size_t\<close> (64 bits); the playback
  position is a \<^verbatim>\<open>size_t\<close>. The product \<open>sample_rate * 50\<close> is taken in the integers:
  where it exceeds the range of \<^verbatim>\<open>int\<close> the source has no defined behaviour.
\<close>

definition processAudioBuffer :: "AudioEngine \<Rightarrow> AudioEngine" where
  "processAudioBuffer e =
     (if \<not> playing e \<or> audio_buffer_size e = 0 then e
      else
        let samples_per_update = nat (((sample_rate (config e) * 50) sdiv 1000) mod 2 ^ 64);
            p = (playback_position e + samples_per_update) mod 2 ^ 64;
            e1 = e\<lparr>playback_position := (if p \<ge> audio_buffer_size e then 0 else p)\<rparr>
        in e1\<lparr>current_metrics := (current_metrics e1)\<lparr>is_playing := True\<rparr>\<rparr>)"

text \<open>
  \<^verbatim>\<open>generateSpectrumData\<close>. The two things the function takes from outside are
  arguments: \<open>dis\<close> gives the value drawn from
  \<^verbatim>\<open>uniform_real_distribution<float>(0.1f, 1.0f)\<close> in iteration \<open>i\<close>, and \<open>clock\<close> the
  reading of the steady clock, in milliseconds, in iteration \<open>i\<close>.
\<close>

definition base_level :: "nat \<Rightarrow> real" where
  "base_level i = max (1 / 10) (1 - real i / 32)"

definition time_factor :: "int \<Rightarrow> nat \<Rightarrow> real" where
  "time_factor time_ms i = 1 / 2 + 1 / 2 * sin (real_of_int time_ms / 100 + real i * (1 / 2))"

definition spectrum_bin :: "(nat \<Rightarrow> real) \<Rightarrow> (nat \<Rightarrow> int) \<Rightarrow> nat \<Rightarrow> real" where
  "spectrum_bin dis clock i = base_level i * dis i * time_factor (clock i) i"

definition generateSpectrumData ::
  "(nat \<Rightarrow> real) \<Rightarrow> (nat \<Rightarrow> int) \<Rightarrow> AudioEngine \<Rightarrow> AudioEngine" where
  "generateSpectrumData dis clock e =
     (if playing e then
        let sp = foldl (\<lambda>xs i. xs[i := spectrum_bin dis clock i])
                   (resize 32 (spectrum_data (current_metrics e))) [0..<32];
            e1 = e\<lparr>current_metrics := (current_metrics e)\<lparr>spectrum_data := sp\<rparr>\<rparr>
        in if visualization_callback e1 then e1\<lparr>visualized := visualized e1 @ [sp]\<rparr> else e1
      else
        let sp = map (\<lambda>_. 1 / 10) (resize 32 (spectrum_data (current_metrics e)))
        in e\<lparr>current_metrics := (current_metrics e)\<lparr>spectrum_data := sp\<rparr>\<rparr>)"

text \<open>
  One update of \<^verbatim>\<open>audioThreadFunction\<close>, run every 50 ms while the thread lives: the
  tick of the metrics producer.
\<close>

definition tick :: "(nat \<Rightarrow> real) \<Rightarrow> (nat \<Rightarrow> int) \<Rightarrow> AudioEngine \<Rightarrow> AudioEngine" where
  "tick dis clock e = generateSpectrumData dis clock (processAudioBuffer e)"

text \<open>
  What can happen to an engine: a call of a public member function, or a tick of the
  processing thread, which exists from \<^verbatim>\<open>initialize\<close> to \<^verbatim>\<open>shutdown\<close>.
\<close>

datatype engine_op =
    Initialize AudioConfig
  | Shutdown
  | SetConfig AudioConfig
  | Play
  | Pause
  | Stop
  | SetActiveDevice int
  | SetVisualizationCallback
  | Tick "nat \<Rightarrow> real" "nat \<Rightarrow> int"

fun engine_step :: "AudioEngine \<Rightarrow> engine_op \<Rightarrow> AudioEngine" where
  "engine_step e (Initialize cfg) = snd (initialize cfg e)"
| "engine_step e Shutdown = shutdown e"
| "engine_step e (SetConfig cfg) = snd (setConfig cfg e)"
| "engine_step e Play = play e"
| "engine_step e Pause = pause e"
| "engine_step e Stop = AudioEngine_stop e"
| "engine_step e (SetActiveDevice d) = snd (setActiveDevice d e)"
| "engine_step e SetVisualizationCallback = setVisualizationCallback e"
| "engine_step e (Tick dis clock) = (if audio_thread e then tick dis clock e else e)"

definition engine_run :: "AudioEngine \<Rightarrow> engine_op list \<Rightarrow> AudioEngine" where
  "engine_run e ops = foldl engine_step e ops"

text \<open>The range of the distribution \<^verbatim>\<open>dis(0.1f, 1.0f)\<close>.\<close>

definition dis_in_range :: "(nat \<Rightarrow> real) \<Rightarrow> bool" where
  "dis_in_range dis \<longleftrightarrow> (\<forall>i < 32. 1 / 10 \<le> dis i \<and> dis i \<le> 1)"

subsection \<open>Device manager (\<^verbatim>\<open>device_manager.h\<close>, \<^verbatim>\<open>device_manager.cpp\<close>)\<close>

datatype DeviceType = WDM | KS | WASAPI | ASIO

datatype DeviceStatus = Active | Inactive | Disabled | Error

record AudioDevice =
  device_id :: int
  name :: string
  type :: DeviceType
  status :: DeviceStatus
  max_sample_rate :: int
  min_buffer_size :: int
  max_buffer_size :: int
  supported_sample_rates :: "int list"
  supported_bit_depths :: "int list"
  is_input :: bool
  is_output :: bool

record DeviceManager =
  devices :: "AudioDevice list"
  device_status :: "(int \<times> DeviceStatus) list"
  manager_active_device_id :: int
  system_initialized :: bool

definition createMockDevice :: "int \<Rightarrow> string \<Rightarrow> DeviceType \<Rightarrow> AudioDevice" where
  "createMockDevice i n t =
     (let device =
            \<lparr>device_id = i, name = n, type = t,
             status = (if i = 1 then Active else Inactive),
             max_sample_rate = 192000, min_buffer_size = 32, max_buffer_size = 2048,
             supported_sample_rates = [44100, 48000, 88200, 96000, 192000],
             supported_bit_depths = [16, 24, 32],
             is_input = True, is_output = True\<rparr>
      in if i = 2 then device\<lparr>status := Disabled\<rparr> else device)"

definition populateDefaultDevices :: "DeviceManager \<Rightarrow> DeviceManager" where
  "populateDefaultDevices m =
     (let ds = [createMockDevice 1 ''Generic HD Audio Device (WDM)'' WDM,
                createMockDevice 2 ''Realtek ASIO (KS)'' KS,
                createMockDevice 3 ''NVIDIA Broadcast (WASAPI)'' WASAPI,
                createMockDevice 4 ''Focusrite USB ASIO (WDM)'' WDM];
          st = foldl (\<lambda>st d. AList.update (device_id d) (status d) st) (device_status m) ds
      in m\<lparr>devices := ds, device_status := st,
            manager_active_device_id := (if ds \<noteq> [] then 1 else manager_active_device_id m)\<rparr>)"

text \<open>
  The constructor: \<^verbatim>\<open>initializeSystemAudio()\<close>, which succeeds on every platform but
  Windows without further calls, then \<^verbatim>\<open>populateDefaultDevices()\<close>.
\<close>

definition DeviceManager_new :: DeviceManager where
  "DeviceManager_new =
     populateDefaultDevices
       \<lparr>devices = [], device_status = [], manager_active_device_id = - 1,
        system_initialized = True\<rparr>"

definition getDevices :: "DeviceManager \<Rightarrow> AudioDevice list" where
  "getDevices m = devices m"

fun deviceTypeToString :: "DeviceType \<Rightarrow> string" where
  "deviceTypeToString WDM = ''WDM''"
| "deviceTypeToString KS = ''KS''"
| "deviceTypeToString WASAPI = ''WASAPI''"
| "deviceTypeToString ASIO = ''ASIO''"

fun deviceStatusToString :: "DeviceStatus \<Rightarrow> string" where
  "deviceStatusToString Active = ''Active''"
| "deviceStatusToString Inactive = ''Inactive''"
| "deviceStatusToString Disabled = ''Disabled''"
| "deviceStatusToString Error = ''Error''"

subsection \<open>Strings\<close>

definition CR :: char where
  "CR = CHR 0x0D"

definition LF :: char where
  "LF = CHR 0x0A"

definition CRLF :: string where
  "CRLF = [CR, LF]"

text \<open>\<^verbatim>\<open>operator<<\<close> on an \<^verbatim>\<open>int\<close>: decimal digits, with a sign when negative.\<close>

definition digit :: "nat \<Rightarrow> char" where
  "digit d = ''0123456789'' ! d"

fun nat_to_string :: "nat \<Rightarrow> string" where
  "nat_to_string n =
     (if n < 10 then [digit n]
      else nat_to_string (n div 10) @ [digit (n mod 10)])"

declare nat_to_string.simps [simp del]

definition int_to_string :: "int \<Rightarrow> string" where
  "int_to_string i = (if i < 0 then CHR ''-'' # nat_to_string (nat (- i)) else nat_to_string (nat i))"

text \<open>\<^verbatim>\<open>std::string::find(char)\<close>: the index of the first occurrence.\<close>

fun find_char :: "char \<Rightarrow> string \<Rightarrow> nat option" where
  "find_char c [] = None"
| "find_char c (x # xs) = (if x = c then Some 0 else map_option Suc (find_char c xs))"

text \<open>\<^verbatim>\<open>std::string::find_last_of(char)\<close>: the index of the last occurrence.\<close>

fun find_last_of :: "char \<Rightarrow> string \<Rightarrow> nat option" where
  "find_last_of c [] = None"
| "find_last_of c (x # xs) =
     (case find_last_of c xs of
        Some i \<Rightarrow> Some (Suc i)
      | None \<Rightarrow> if x = c then Some 0 else None)"

text \<open>\<^verbatim>\<open>std::string::find(const char*)\<close>: the index of the first occurrence of a string.\<close>

fun find_str :: "string \<Rightarrow> string \<Rightarrow> nat option" where
  "find_str pat [] = (if pat = [] then Some 0 else None)"
| "find_str pat (x # xs) =
     (if prefix pat (x # xs) then Some 0 else map_option Suc (find_str pat xs))"

text \<open>
  \<^verbatim>\<open>operator>>\<close> into a \<^verbatim>\<open>std::string\<close>: skip white space, then read up to the next
  white space or the end. The result is the token and the rest of the stream; at the
  end of the stream the token is empty.
\<close>

definition isspace :: "char \<Rightarrow> bool" where
  "isspace c \<longleftrightarrow> c \<in> set [CHR '' '', CHR 0x09, CHR 0x0A, CHR 0x0B, CHR 0x0C, CHR 0x0D]"

definition extract_token :: "string \<Rightarrow> string \<times> string" where
  "extract_token s =
     (let s1 = dropWhile isspace s
      in (takeWhile (\<lambda>c. \<not> isspace c) s1, dropWhile (\<lambda>c. \<not> isspace c) s1))"

subsection \<open>Web server (\<^verbatim>\<open>webserver.h\<close>, \<^verbatim>\<open>webserver.cpp\<close>)\<close>

text \<open>
  The request parameters are a \<^verbatim>\<open>std::map<std::string, std::string>\<close>.

  A route handler is a \<^verbatim>\<open>std::function\<close> from the parameters to the response body.
  The four handlers that \<^verbatim>\<open>setupRoutes\<close> registers are closures over \<^verbatim>\<open>this\<close> that call
  a member function, so they read the server as it is when the request arrives; they
  are named here, and \<open>call_handler\<close> applies them to the server. A handler given to
  \<^verbatim>\<open>addRoute\<close> from outside is a function of the parameters.
\<close>

type_synonym RequestParams = "(string \<times> string) list"

datatype Handler =
    DevicesAPI
  | ConfigAPI
  | StatusAPI
  | AudioAPI
  | External "RequestParams \<Rightarrow> string"

record Route =
  route_method :: string
  path :: string
  handler :: Handler

text \<open>
  The collaborators are shared pointers: \<open>None\<close> is the null pointer, \<open>Some x\<close> points
  to an object whose state, as the server reads it, is \<open>x\<close>.
\<close>

record WebServer =
  port :: int
  running :: bool
  static_directory :: string
  routes :: "Route list"
  audio_engine :: "AudioEngine option"
  device_manager :: "DeviceManager option"
  config_manager :: "ConfigManager option"

definition addRoute :: "string \<Rightarrow> string \<Rightarrow> Handler \<Rightarrow> WebServer \<Rightarrow> WebServer" where
  "addRoute m p h srv = srv\<lparr>routes := routes srv @ [\<lparr>route_method = m, path = p, handler = h\<rparr>]\<rparr>"

definition setupRoutes :: "WebServer \<Rightarrow> WebServer" where
  \<open>setupRoutes srv =
     addRoute ''POST'' ''/api/audio/play'' AudioAPI
       (addRoute ''GET'' ''/api/status'' StatusAPI
         (addRoute ''GET'' ''/api/config'' ConfigAPI
           (addRoute ''GET'' ''/api/devices'' DevicesAPI srv)))\<close>

text \<open>The constructor \<^verbatim>\<open>WebServer(int port)\<close>.\<close>

definition WebServer_new :: "int \<Rightarrow> WebServer" where
  "WebServer_new p =
     setupRoutes
       \<lparr>port = p, running = False, static_directory = [], routes = [],
        audio_engine = None, device_manager = None, config_manager = None\<rparr>"

definition setStaticDirectory :: "string \<Rightarrow> WebServer \<Rightarrow> WebServer" where
  "setStaticDirectory p srv = srv\<lparr>static_directory := p\<rparr>"

definition setAudioEngine :: "AudioEngine option \<Rightarrow> WebServer \<Rightarrow> WebServer" where
  "setAudioEngine e srv = srv\<lparr>audio_engine := e\<rparr>"

definition setDeviceManager :: "DeviceManager option \<Rightarrow> WebServer \<Rightarrow> WebServer" where
  "setDeviceManager m srv = srv\<lparr>device_manager := m\<rparr>"

definition setConfigManager :: "ConfigManager option \<Rightarrow> WebServer \<Rightarrow> WebServer" where
  "setConfigManager m srv = srv\<lparr>config_manager := m\<rparr>"

text \<open>
  \<^verbatim>\<open>start\<close> creates, binds and listens on a socket. Whether each of the three system
  calls succeeds is an input. The accept loop it then starts runs in a thread of its
  own and reads \<open>running\<close>; of that thread the model keeps the flag only.
\<close>

record SocketCalls =
  socket_ok :: bool
  bind_ok :: bool
  listen_ok :: bool

definition start :: "SocketCalls \<Rightarrow> WebServer \<Rightarrow> bool \<times> WebServer" where
  "start sys srv =
     (if running srv then (True, srv)
      else if \<not> socket_ok sys then (False, srv)
      else if \<not> bind_ok sys then (False, srv)
      else if \<not> listen_ok sys then (False, srv)
      else (True, srv\<lparr>running := True\<rparr>))"

definition stop :: "WebServer \<Rightarrow> WebServer" where
  "stop srv = srv\<lparr>running := False\<rparr>"

definition isRunning :: "WebServer \<Rightarrow> bool" where
  "isRunning srv = running srv"

text \<open>
  The file system is an input: \<open>fs p\<close> is \<open>Some\<close> of the bytes of the file at \<open>p\<close> when
  the \<^verbatim>\<open>ifstream\<close> opens, and \<open>None\<close> when it does not.
\<close>

definition serveStaticFile :: "(string \<Rightarrow> string option) \<Rightarrow> WebServer \<Rightarrow> string \<Rightarrow> string" where
  "serveStaticFile fs srv p =
     (let full_path = static_directory srv @ p
      in case fs full_path of None \<Rightarrow> [] | Some content \<Rightarrow> content)"

definition getContentType :: "string \<Rightarrow> string" where
  "getContentType p =
     (case find_last_of CHR ''.'' p of
        None \<Rightarrow> ''text/plain''
      | Some dot_pos \<Rightarrow>
          let extension = drop dot_pos p
          in if extension = ''.html'' then ''text/html''
             else if extension = ''.css'' then ''text/css''
             else if extension = ''.js'' then ''application/javascript''
             else if extension = ''.json'' then ''application/json''
             else if extension = ''.png'' then ''image/png''
             else if extension = ''.jpg'' \<or> extension = ''.jpeg'' then ''image/jpeg''
             else if extension = ''.gif'' then ''image/gif''
             else if extension = ''.svg'' then ''image/svg+xml''
             else if extension = ''.ico'' then ''image/x-icon''
             else if extension = ''.wav'' then ''audio/wav''
             else if extension = ''.mp3'' then ''audio/mpeg''
             else ''text/plain'')"

definition cors_headers :: string where
  "cors_headers =
     ''Access-Control-Allow-Origin: *'' @ CRLF @
     ''Access-Control-Allow-Methods: GET, POST, PUT, DELETE, OPTIONS'' @ CRLF @
     ''Access-Control-Allow-Headers: Content-Type, Authorization'' @ CRLF"

definition addCORSHeaders :: "string \<Rightarrow> string" where
  "addCORSHeaders response =
     (case find_str (CRLF @ CRLF) response of
        Some header_end \<Rightarrow>
          take header_end response @ CRLF @ cors_headers @ drop header_end response
      | None \<Rightarrow> response)"

definition device_json :: "AudioDevice \<Rightarrow> string" where
  \<open>device_json device =
     ''{"id": '' @ int_to_string (device_id device) @
     '', "name": "'' @ name device @ ''"'' @
     '', "type": "'' @ deviceTypeToString (type device) @ ''"'' @
     '', "status": "'' @ deviceStatusToString (status device) @ ''"'' @
     ''}''\<close>

fun devices_json :: "nat \<Rightarrow> AudioDevice list \<Rightarrow> string" where
  "devices_json i [] = []"
| "devices_json i (d # ds) = (if i > 0 then '','' else []) @ device_json d @ devices_json (Suc i) ds"

definition handleDevicesAPI :: "WebServer \<Rightarrow> RequestParams \<Rightarrow> string" where
  \<open>handleDevicesAPI srv params =
     (case device_manager srv of
        None \<Rightarrow> ''{"error": "Device manager not available"}''
      | Some m \<Rightarrow> ''{"devices": ['' @ devices_json 0 (getDevices m) @ '']}'')\<close>

definition handleConfigAPI :: "WebServer \<Rightarrow> RequestParams \<Rightarrow> string" where
  \<open>handleConfigAPI srv params =
     (case config_manager srv of
        None \<Rightarrow> ''{"error": "Config manager not available"}''
      | Some m \<Rightarrow>
          let config = getAudioConfig m
          in ''{"config": {'' @
             ''"sample_rate": '' @ int_to_string (sample_rate config) @
             '', "buffer_size": '' @ int_to_string (buffer_size config) @
             '', "bit_depth": '' @ int_to_string (bit_depth config) @
             '', "channels": '' @ int_to_string (channels config) @
             ''}}'')\<close>

definition handleStatusAPI :: "WebServer \<Rightarrow> RequestParams \<Rightarrow> string" where
  \<open>handleStatusAPI srv params =
     ''{"status": {'' @
     ''"server": "online"'' @
     '', "audio_engine": "'' @
       (if (case audio_engine srv of None \<Rightarrow> False | Some e \<Rightarrow> initialized e)
        then ''online'' else ''offline'') @ ''"'' @
     '', "device_manager": "'' @
       (if device_manager srv \<noteq> None then ''online'' else ''offline'') @ ''"'' @
     '', "config_manager": "'' @
       (if config_manager srv \<noteq> None then ''online'' else ''offline'') @ ''"'' @
     ''}}''\<close>

definition handleAudioAPI :: "WebServer \<Rightarrow> RequestParams \<Rightarrow> string" where
  \<open>handleAudioAPI srv params =
     (case audio_engine srv of
        None \<Rightarrow> ''{"error": "Audio engine not available"}''
      | Some e \<Rightarrow> ''{"result": "success", "message": "Audio command processed"}'')\<close>

fun call_handler :: "WebServer \<Rightarrow> Handler \<Rightarrow> RequestParams \<Rightarrow> string" where
  "call_handler srv DevicesAPI params = handleDevicesAPI srv params"
| "call_handler srv ConfigAPI params = handleConfigAPI srv params"
| "call_handler srv StatusAPI params = handleStatusAPI srv params"
| "call_handler srv AudioAPI params = handleAudioAPI srv params"
| "call_handler srv (External f) params = f params"

text \<open>The loop over \<^verbatim>\<open>routes_\<close> in \<^verbatim>\<open>handleRequest\<close>: the first route that matches.\<close>

fun find_route :: "Route list \<Rightarrow> string \<Rightarrow> string \<Rightarrow> Route option" where
  "find_route [] m p = None"
| "find_route (route # rs) m p =
     (if route_method route = m \<and> path route = p then Some route else find_route rs m p)"

definition not_found_response :: string where
  \<open>not_found_response =
     ''HTTP/1.1 404 Not Found'' @ CRLF @ ''Content-Type: text/html'' @ CRLF @ CRLF @
     ''<h1>404 Not Found</h1>''\<close>

definition handleRequest ::
  "(string \<Rightarrow> string option) \<Rightarrow> WebServer \<Rightarrow> string \<Rightarrow> string \<Rightarrow> RequestParams \<Rightarrow> string" where
  "handleRequest fs srv m p params =
     (case find_route (routes srv) m p of
        Some route \<Rightarrow>
          let json_response = call_handler srv (handler route) params
          in addCORSHeaders
               (''HTTP/1.1 200 OK'' @ CRLF @ ''Content-Type: application/json'' @ CRLF @ CRLF @
                json_response)
      | None \<Rightarrow>
          if m = ''GET'' then
            let file_path = (if p = ''/'' then ''/index.html'' else p);
                content = serveStaticFile fs srv file_path
            in if content \<noteq> [] then
                 let content_type = getContentType file_path
                 in addCORSHeaders
                      (''HTTP/1.1 200 OK'' @ CRLF @ ''Content-Type: '' @ content_type @ CRLF @ CRLF @
                       content)
               else addCORSHeaders not_found_response
          else addCORSHeaders not_found_response)"

text \<open>
  The iteration of \<^verbatim>\<open>std::sregex_iterator\<close> with the pattern
  \<^verbatim>\<open>([^&=]+)=([^&=]*)\<close> over the query (ECMAScript grammar, the default of
  \<^verbatim>\<open>std::regex\<close>).

  \<open>regex_match_at s\<close> is the match that begins at the first character of \<open>s\<close>, if
  there is one: the first group is greedy and is followed by \<^verbatim>\<open>=\<close>, which is not in its
  class, so the group is the whole run of characters other than \<^verbatim>\<open>&\<close> and \<^verbatim>\<open>=\<close>, that
  run is not empty and the character after it is \<^verbatim>\<open>=\<close>; the second group is the run
  that follows. The result is the two groups and what is left after the match.

  \<open>regex_matches\<close> is the search: the match at the leftmost position that has one,
  then the search again from the end of that match.
\<close>

definition param_char :: "char \<Rightarrow> bool" where
  "param_char c \<longleftrightarrow> c \<noteq> CHR ''&'' \<and> c \<noteq> CHR ''=''"

definition regex_match_at :: "string \<Rightarrow> (string \<times> string \<times> string) option" where
  "regex_match_at s =
     (let g1 = takeWhile param_char s; r1 = dropWhile param_char s
      in if g1 = [] then None
         else case r1 of
                [] \<Rightarrow> None
              | c # r2 \<Rightarrow>
                  if c = CHR ''=''
                  then Some (g1, takeWhile param_char r2, dropWhile param_char r2)
                  else None)"

lemma regex_match_at_shorter:
  "regex_match_at s = Some (k, v, rest) \<Longrightarrow> length rest < length s"
proof -
  assume "regex_match_at s = Some (k, v, rest)"
  then obtain r2 where r1: "dropWhile param_char s = CHR ''='' # r2"
    and rest: "rest = dropWhile param_char r2"
    by (auto simp: regex_match_at_def Let_def split: if_splits list.splits)
  have "length rest \<le> length r2"
    unfolding rest by (rule length_dropWhile_le)
  also have "length r2 < length (dropWhile param_char s)"
    by (simp add: r1)
  also have "\<dots> \<le> length s"
    by (rule length_dropWhile_le)
  finally show ?thesis .
qed

function regex_matches :: "string \<Rightarrow> (string \<times> string) list" where
  "regex_matches [] = []"
| "regex_matches (c # cs) =
     (case regex_match_at (c # cs) of
        Some (k, v, rest) \<Rightarrow> (k, v) # regex_matches rest
      | None \<Rightarrow> regex_matches cs)"
  by pat_completeness auto
termination
  by (relation "measure length") (auto dest: regex_match_at_shorter)

text \<open>The loop \<^verbatim>\<open>params[(*iter)[1]] = (*iter)[2]\<close> over the matches, in order.\<close>

definition parse_query :: "string \<Rightarrow> RequestParams" where
  "parse_query query =
     foldl (\<lambda>params (k, v). AList.update k v params) [] (regex_matches query)"

text \<open>
  The part of \<^verbatim>\<open>handleClient\<close> that extracts the query parameters: the path as it is
  passed on, and the parameters.
\<close>

definition extract_query_parameters :: "string \<Rightarrow> string \<times> RequestParams" where
  "extract_query_parameters p =
     (case find_char CHR ''?'' p of
        Some query_pos \<Rightarrow> (take query_pos p, parse_query (drop (query_pos + 1) p))
      | None \<Rightarrow> (p, []))"

text \<open>
  \<^verbatim>\<open>handleClient\<close>, from the bytes that \<^verbatim>\<open>recv\<close> delivers (none when it returns
  zero or fails) to the response that is sent, if any. The buffer takes 4095 bytes and
  the request is read from it as a C string.
\<close>

definition handleClient ::
  "(string \<Rightarrow> string option) \<Rightarrow> WebServer \<Rightarrow> string \<Rightarrow> string option" where
  "handleClient fs srv received =
     (if received = [] then None
      else
        let request = takeWhile (\<lambda>c. c \<noteq> CHR 0x00) (take 4095 received);
            (m, s1) = extract_token request;
            (p, s2) = extract_token s1;
            (version, s3) = extract_token s2;
            (p', params) = extract_query_parameters p
        in Some (handleRequest fs srv m p' params))"

subsection \<open>Notions of the specification\<close>

text \<open>The latency of one buffer in milliseconds: \<open>bufferSize / sampleRate * 1000\<close>.\<close>

definition spec_latency_ms :: "AudioConfig \<Rightarrow> real" where
  "spec_latency_ms cfg = real_of_int (buffer_size cfg) / real_of_int (sample_rate cfg) * 1000"

text \<open>
  The validity condition as the specification words it: the sample rate is one of the
  five listed rates, the buffer size is a power of two between 32 and 2048, the bit
  depth is 16, 24 or 32, and there are between one and eight channels.
\<close>

definition spec_valid_audio :: "AudioConfig \<Rightarrow> bool" where
  "spec_valid_audio cfg \<longleftrightarrow>
     sample_rate cfg \<in> {44100, 48000, 88200, 96000, 192000} \<and>
     (\<exists>k::nat. buffer_size cfg = 2 ^ k) \<and> 32 \<le> buffer_size cfg \<and> buffer_size cfg \<le> 2048 \<and>
     bit_depth cfg \<in> {16, 24, 32} \<and>
     1 \<le> channels cfg \<and> channels cfg \<le> 8"

text \<open>
  The metrics agree with the configuration: input and output latency are the latency
  of one buffer, the total is twice that.
\<close>

definition latency_consistent :: "AudioEngine \<Rightarrow> bool" where
  "latency_consistent e \<longleftrightarrow>
     input_latency (getMetrics e) = spec_latency_ms (config e) \<and>
     output_latency (getMetrics e) = spec_latency_ms (config e) \<and>
     total_latency (getMetrics e) = 2 * spec_latency_ms (config e)"

text \<open>
  The metrics hold the latencies of the member initialisers, and the calls that are
  not calls of \<^verbatim>\<open>initialize\<close>.
\<close>

definition latency_unset :: "AudioEngine \<Rightarrow> bool" where
  "latency_unset e \<longleftrightarrow>
     input_latency (getMetrics e) = 0 \<and>
     output_latency (getMetrics e) = 0 \<and>
     total_latency (getMetrics e) = 0"

fun is_initialize :: "engine_op \<Rightarrow> bool" where
  "is_initialize (Initialize cfg) = True"
| "is_initialize _ = False"

text \<open>
  A token of the request line as \<^verbatim>\<open>handleClient\<close> reads it: not empty, without white
  space and without the byte that ends a C string.
\<close>

definition is_token :: "string \<Rightarrow> bool" where
  "is_token w \<longleftrightarrow> w \<noteq> [] \<and> (\<forall>c \<in> set w. \<not> isspace c \<and> c \<noteq> CHR 0x00)"

text \<open>
  The query string that lists given parameters, \<^verbatim>\<open>name=value\<close> joined by \<^verbatim>\<open>&\<close>, for
  parameters whose names are not empty and whose names and values contain neither
  \<^verbatim>\<open>&\<close> nor \<^verbatim>\<open>=\<close>.
\<close>

fun query_string :: "(string \<times> string) list \<Rightarrow> string" where
  "query_string [] = []"
| "query_string [(k, v)] = k @ ''='' @ v"
| "query_string ((k, v) # kv # kvs) = k @ ''='' @ v @ ''&'' @ query_string (kv # kvs)"

definition well_formed_param :: "string \<times> string \<Rightarrow> bool" where
  "well_formed_param kv \<longleftrightarrow>
     fst kv \<noteq> [] \<and> (\<forall>c \<in> set (fst kv). param_char c) \<and> (\<forall>c \<in> set (snd kv). param_char c)"

text \<open>
  The body of an HTTP response as a client reads it: what follows the first empty line,
  that is, the first \<^verbatim>\<open>\r\n\r\n\<close>. The server sends no \<^verbatim>\<open>Content-Length\<close> and closes the
  connection after the response.
\<close>

definition http_body :: "string \<Rightarrow> string" where
  "http_body response =
     (case find_str (CRLF @ CRLF) response of
        Some i \<Rightarrow> drop (i + 4) response
      | None \<Rightarrow> [])"

text \<open>
  The header section of an HTTP response: the status line and the header lines, that
  is, what stands before the first empty line.
\<close>

definition http_head :: "string \<Rightarrow> string" where
  "http_head response =
     (case find_str (CRLF @ CRLF) response of
        Some i \<Rightarrow> take i response
      | None \<Rightarrow> response)"

text \<open>What can follow a path in the buffer when a query is appended: nothing, or \<^verbatim>\<open>?\<close> first.\<close>

definition query_mark :: "string \<Rightarrow> bool" where
  "query_mark r \<longleftrightarrow> r = [] \<or> hd r = CHR ''?''"

section \<open>Theorems\<close>

subsection \<open>Validation of audio configurations\<close>

text \<open>
  The test \<^verbatim>\<open>(b & (b - 1)) == 0\<close> on a positive integer: clearing the lowest set bit
  leaves nothing exactly when one bit is set.
\<close>

lemma and_pred_even: "(2 * m) AND (2 * m - 1) = 2 * (m AND (m - 1))" for m :: int
proof -
  have "(2 * m - 1) div 2 = m - 1" by simp
  then show ?thesis
    by (subst and_int_rec) simp
qed

lemma and_pred_odd: "(2 * m + 1) AND (2 * m + 1 - 1) = 2 * m" for m :: int
  by (subst and_int_rec) simp

lemma pow2_and_pred:
  "0 < b \<Longrightarrow> (b AND (b - 1) = 0) = (\<exists>k::nat. b = 2 ^ k)" for b :: int
proof (induction "nat b" arbitrary: b rule: less_induct)
  case less
  show ?case
  proof (cases "even b")
    case True
    then obtain m where m: "b = 2 * m" by (auto elim: evenE)
    with less.prems have mpos: "0 < m" by simp
    have "nat m < nat b" using m mpos by simp
    from less.hyps[OF this mpos]
    have ih: "(m AND (m - 1) = 0) = (\<exists>k::nat. m = 2 ^ k)" .
    have "(b AND (b - 1) = 0) = (m AND (m - 1) = 0)"
      unfolding m and_pred_even by simp
    also have "\<dots> = (\<exists>k::nat. m = 2 ^ k)" by (rule ih)
    also have "\<dots> = (\<exists>k::nat. b = 2 ^ k)"
    proof
      assume "\<exists>k::nat. m = 2 ^ k"
      then obtain k :: nat where "m = 2 ^ k" ..
      then have "b = 2 ^ Suc k" using m by simp
      then show "\<exists>k::nat. b = 2 ^ k" ..
    next
      assume "\<exists>k::nat. b = 2 ^ k"
      then obtain k :: nat where k: "b = 2 ^ k" ..
      show "\<exists>k::nat. m = 2 ^ k"
      proof (cases k)
        case 0
        with k m have "2 * m = 1" by simp
        then have False by presburger
        then show ?thesis ..
      next
        case (Suc j)
        with k m have "m = 2 ^ j" by simp
        then show ?thesis ..
      qed
    qed
    finally show ?thesis .
  next
    case False
    then obtain m where m: "b = 2 * m + 1" by (auto elim: oddE)
    have l: "(b AND (b - 1) = 0) = (m = 0)"
      unfolding m and_pred_odd by simp
    have r: "(\<exists>k::nat. b = 2 ^ k) = (m = 0)"
    proof
      assume "\<exists>k::nat. b = 2 ^ k"
      then obtain k :: nat where k: "b = 2 ^ k" ..
      show "m = 0"
      proof (cases k)
        case 0
        with k m show ?thesis by simp
      next
        case (Suc j)
        with k have "even b" by simp
        with False show ?thesis by simp
      qed
    next
      assume "m = 0"
      then have "b = 2 ^ 0" using m by simp
      then show "\<exists>k::nat. b = 2 ^ k" ..
    qed
    show ?thesis using l r by simp
  qed
qed

lemma isValidBufferSize_iff:
  "isValidBufferSize b \<longleftrightarrow> (\<exists>k::nat. b = 2 ^ k) \<and> 32 \<le> b \<and> b \<le> 2048"
proof (cases "32 \<le> b")
  case True
  then have "0 < b" by simp
  from pow2_and_pred[OF this] True show ?thesis
    by (auto simp: isValidBufferSize_def)
next
  case False
  then show ?thesis by (simp add: isValidBufferSize_def)
qed

lemma validateAudioConfig_iff: "validateAudioConfig cfg \<longleftrightarrow> spec_valid_audio cfg"
proof -
  have ch: "(channels cfg > 0 \<and> channels cfg \<le> 8) = (1 \<le> channels cfg \<and> channels cfg \<le> 8)"
    by auto
  have bd: "isValidBitDepth (bit_depth cfg) = (bit_depth cfg \<in> {16, 24, 32})"
    by (auto simp: isValidBitDepth_def)
  have sr: "isValidSampleRate (sample_rate cfg)
              = (sample_rate cfg \<in> {44100, 48000, 88200, 96000, 192000})"
    by (simp add: isValidSampleRate_def)
  show ?thesis
    unfolding validateAudioConfig_def spec_valid_audio_def isValidBufferSize_iff ch bd sr
    by (simp only: conj_assoc)
qed

text \<open>
  Claim C10. \<^verbatim>\<open>setAudioConfig\<close> is atomic with respect to validation. For a
  configuration that meets the four conditions of the specification (one of the five
  sample rates, a power-of-two buffer size between 32 and 2048, a bit depth of 16, 24
  or 32, one to eight channels) the call returns true and the stored audio
  configuration is the one passed in; for every other configuration it returns false
  and the configuration manager is left exactly as it was.
\<close>

theorem setAudioConfig_atomic:
  "(spec_valid_audio cfg \<longrightarrow>
      fst (setAudioConfig cfg m) = True \<and>
      getAudioConfig (snd (setAudioConfig cfg m)) = cfg) \<and>
   (\<not> spec_valid_audio cfg \<longrightarrow>
      fst (setAudioConfig cfg m) = False \<and>
      snd (setAudioConfig cfg m) = m)"
  by (simp add: setAudioConfig_def validateAudioConfig_iff notifyConfigChanged_def
      getAudioConfig_def)

theorem setAudioConfig_atomic_witness:
  "spec_valid_audio getDefaultAudioConfig \<and>
   fst (setAudioConfig getDefaultAudioConfig initializeDefaults) = True \<and>
   getAudioConfig (snd (setAudioConfig getDefaultAudioConfig initializeDefaults))
     = getDefaultAudioConfig \<and>
   \<not> spec_valid_audio (getDefaultAudioConfig\<lparr>buffer_size := 48\<rparr>) \<and>
   fst (setAudioConfig (getDefaultAudioConfig\<lparr>buffer_size := 48\<rparr>) initializeDefaults) = False \<and>
   snd (setAudioConfig (getDefaultAudioConfig\<lparr>buffer_size := 48\<rparr>) initializeDefaults)
     = initializeDefaults"
proof -
  have "(256::int) = 2 ^ 8" by simp
  then have "\<exists>k::nat. (256::int) = 2 ^ k" ..
  then have v: "spec_valid_audio getDefaultAudioConfig"
    by (simp add: spec_valid_audio_def getDefaultAudioConfig_def)
  have "\<not> isValidBufferSize 48"
    by (simp add: isValidBufferSize_def)
  then have "\<not> validateAudioConfig (getDefaultAudioConfig\<lparr>buffer_size := 48\<rparr>)"
    by (simp add: validateAudioConfig_def)
  then have n: "\<not> spec_valid_audio (getDefaultAudioConfig\<lparr>buffer_size := 48\<rparr>)"
    by (simp add: validateAudioConfig_iff)
  from v n
    setAudioConfig_atomic [of getDefaultAudioConfig initializeDefaults]
    setAudioConfig_atomic [of "getDefaultAudioConfig\<lparr>buffer_size := 48\<rparr>" initializeDefaults]
  show ?thesis by simp
qed

subsection \<open>Latency\<close>

lemma calculateLatency_consistent: "latency_consistent (calculateLatency e)"
  by (simp add: latency_consistent_def calculateLatency_def getMetrics_def
      spec_latency_ms_def Let_def)

lemma initialize_consistent: "latency_consistent (snd (initialize cfg e))"
  by (simp add: initialize_def Let_def latency_consistent_def calculateLatency_def
      getMetrics_def spec_latency_ms_def generateDefaultAudio_def)

lemma stop_consistent: "latency_consistent e \<Longrightarrow> latency_consistent (AudioEngine_stop e)"
  by (simp add: latency_consistent_def AudioEngine_stop_def getMetrics_def Let_def)

lemma shutdown_consistent: "latency_consistent e \<Longrightarrow> latency_consistent (shutdown e)"
  using stop_consistent [of e]
  by (simp add: shutdown_def latency_consistent_def getMetrics_def)

text \<open>
  \<^verbatim>\<open>setConfig\<close> recomputes the latency only when the sample rate, the buffer size or
  the bit depth changes; when none does, the pair the latency depends on is the old
  one.
\<close>

lemma setConfig_consistent:
  assumes "latency_consistent e"
  shows "latency_consistent (snd (setConfig cfg e))"
proof (cases "initialized e")
  case False
  with assms show ?thesis by (simp add: setConfig_def)
next
  case True
  show ?thesis
  proof (cases "sample_rate cfg \<noteq> sample_rate (config e) \<or>
               buffer_size cfg \<noteq> buffer_size (config e) \<or>
               bit_depth cfg \<noteq> bit_depth (config e)")
    case True
    with \<open>initialized e\<close> have "snd (setConfig cfg e) = calculateLatency (e\<lparr>config := cfg\<rparr>)"
      by (simp add: setConfig_def Let_def)
    then show ?thesis by (simp add: calculateLatency_consistent)
  next
    case False
    with \<open>initialized e\<close> have "snd (setConfig cfg e) = e\<lparr>config := cfg\<rparr>"
      by (simp add: setConfig_def Let_def)
    with False assms show ?thesis
      by (simp add: latency_consistent_def getMetrics_def spec_latency_ms_def)
  qed
qed

lemma tick_consistent: "latency_consistent e \<Longrightarrow> latency_consistent (tick dis clock e)"
  by (simp add: tick_def generateSpectrumData_def processAudioBuffer_def
      latency_consistent_def getMetrics_def Let_def)

lemma engine_step_consistent:
  assumes "latency_consistent e"
  shows "latency_consistent (engine_step e op)"
proof (cases op)
  case (Initialize cfg)
  then show ?thesis by (simp add: initialize_consistent)
next
  case Shutdown
  with assms show ?thesis by (simp add: shutdown_consistent)
next
  case (SetConfig cfg)
  with assms show ?thesis by (simp add: setConfig_consistent)
next
  case Play
  with assms show ?thesis by (simp add: play_def latency_consistent_def getMetrics_def)
next
  case Pause
  with assms show ?thesis by (simp add: pause_def latency_consistent_def getMetrics_def)
next
  case Stop
  with assms show ?thesis by (simp add: stop_consistent)
next
  case (SetActiveDevice d)
  with assms show ?thesis
    by (simp add: setActiveDevice_def latency_consistent_def getMetrics_def)
next
  case SetVisualizationCallback
  with assms show ?thesis
    by (simp add: setVisualizationCallback_def latency_consistent_def getMetrics_def)
next
  case (Tick dis clock)
  with assms show ?thesis by (simp add: tick_consistent)
qed

lemma engine_run_consistent:
  "latency_consistent e \<Longrightarrow> latency_consistent (engine_run e ops)"
  unfolding engine_run_def
  by (induction ops arbitrary: e) (simp_all add: engine_step_consistent)

text \<open>
  Before \<^verbatim>\<open>initialize\<close>: an engine as its constructor leaves it is not initialised and
  holds the latencies 0 of the member initialisers, and no call other than
  \<^verbatim>\<open>initialize\<close> changes either; \<^verbatim>\<open>setConfig\<close> refuses to act on it.
\<close>

lemma engine_step_unset:
  assumes "\<not> initialized e" and "latency_unset e" and "\<not> is_initialize op"
  shows "\<not> initialized (engine_step e op) \<and> latency_unset (engine_step e op)"
proof (cases op)
  case (Initialize cfg)
  with assms(3) show ?thesis by simp
next
  case Shutdown
  with assms show ?thesis by (simp add: shutdown_def)
next
  case (SetConfig cfg)
  with assms show ?thesis by (simp add: setConfig_def)
next
  case Play
  with assms show ?thesis by (simp add: play_def)
next
  case Pause
  with assms show ?thesis by (simp add: pause_def latency_unset_def getMetrics_def)
next
  case Stop
  with assms show ?thesis
    by (simp add: AudioEngine_stop_def latency_unset_def getMetrics_def Let_def)
next
  case (SetActiveDevice d)
  with assms show ?thesis
    by (simp add: setActiveDevice_def latency_unset_def getMetrics_def)
next
  case SetVisualizationCallback
  with assms show ?thesis
    by (simp add: setVisualizationCallback_def latency_unset_def getMetrics_def)
next
  case (Tick dis clock)
  with assms show ?thesis
    by (simp add: tick_def generateSpectrumData_def processAudioBuffer_def
        latency_unset_def getMetrics_def Let_def)
qed

lemma engine_run_unset:
  "list_all (\<lambda>op. \<not> is_initialize op) ops \<Longrightarrow> \<not> initialized e \<Longrightarrow> latency_unset e \<Longrightarrow>
   \<not> initialized (engine_run e ops) \<and> latency_unset (engine_run e ops)"
  unfolding engine_run_def
proof (induction ops arbitrary: e)
  case Nil
  then show ?case by simp
next
  case (Cons op ops)
  from Cons.prems have "\<not> is_initialize op" and r: "list_all (\<lambda>op. \<not> is_initialize op) ops"
    by simp_all
  with Cons.prems engine_step_unset [of e op]
  have "\<not> initialized (engine_step e op)" and "latency_unset (engine_step e op)"
    by simp_all
  with Cons.IH [OF r] show ?case by simp
qed

lemma AudioEngine_default_unset:
  "\<not> initialized AudioEngine_default \<and> latency_unset AudioEngine_default"
  by (simp add: AudioEngine_default_def AudioMetrics_default_def latency_unset_def getMetrics_def)

text \<open>
  Claim C1, for engines that have been initialised. Let the configuration of an engine
  hold a valid sample rate and a valid buffer size.
  \<^item> \<^verbatim>\<open>calculateLatency\<close> leaves metrics whose input latency is
    \<open>bufferSize / sampleRate * 1000\<close>, whose output latency is the same, and whose total
    latency is exactly twice that.
  \<^item> If the engine has been initialised, in any state and with any configuration, and
    any sequence of calls and ticks has followed, the metrics it exposes satisfy the
    same three equations for the pair it holds now.
  \<^item> On an engine as its constructor leaves it, after any sequence of calls and ticks
    without a call of \<^verbatim>\<open>initialize\<close>, the three latencies exposed are 0.
\<close>

theorem latency_snapshot:
  assumes "isValidSampleRate (sample_rate (config e))"
    and "isValidBufferSize (buffer_size (config e))"
  shows "(input_latency (getMetrics (calculateLatency e)) = spec_latency_ms (config e) \<and>
          output_latency (getMetrics (calculateLatency e)) = spec_latency_ms (config e) \<and>
          total_latency (getMetrics (calculateLatency e)) = 2 * spec_latency_ms (config e)) \<and>
         (e = engine_run (snd (initialize cfg e0)) ops \<longrightarrow>
          input_latency (getMetrics e) = spec_latency_ms (config e) \<and>
          output_latency (getMetrics e) = spec_latency_ms (config e) \<and>
          total_latency (getMetrics e) = 2 * spec_latency_ms (config e)) \<and>
         (list_all (\<lambda>op. \<not> is_initialize op) ops0 \<longrightarrow>
          input_latency (getMetrics (engine_run AudioEngine_default ops0)) = 0 \<and>
          output_latency (getMetrics (engine_run AudioEngine_default ops0)) = 0 \<and>
          total_latency (getMetrics (engine_run AudioEngine_default ops0)) = 0)"
proof (intro conjI impI)
  have c: "config (calculateLatency e) = config e"
    by (simp add: calculateLatency_def Let_def)
  from calculateLatency_consistent [of e]
  show "input_latency (getMetrics (calculateLatency e)) = spec_latency_ms (config e)"
    and "output_latency (getMetrics (calculateLatency e)) = spec_latency_ms (config e)"
    and "total_latency (getMetrics (calculateLatency e)) = 2 * spec_latency_ms (config e)"
    by (simp_all add: latency_consistent_def c)
next
  assume "e = engine_run (snd (initialize cfg e0)) ops"
  with engine_run_consistent [OF initialize_consistent, of cfg e0 ops]
  have "latency_consistent e" by simp
  then show "input_latency (getMetrics e) = spec_latency_ms (config e)"
    and "output_latency (getMetrics e) = spec_latency_ms (config e)"
    and "total_latency (getMetrics e) = 2 * spec_latency_ms (config e)"
    by (simp_all add: latency_consistent_def)
next
  assume "list_all (\<lambda>op. \<not> is_initialize op) ops0"
  with engine_run_unset [of ops0 AudioEngine_default] AudioEngine_default_unset
  have "latency_unset (engine_run AudioEngine_default ops0)" by simp
  then show "input_latency (getMetrics (engine_run AudioEngine_default ops0)) = 0"
    and "output_latency (getMetrics (engine_run AudioEngine_default ops0)) = 0"
    and "total_latency (getMetrics (engine_run AudioEngine_default ops0)) = 0"
    by (simp_all add: latency_unset_def)
qed

text \<open>
  An engine initialised with the defaults (48000 Hz, 256 samples), then set to 512
  samples while playing, ticked and stopped: \<open>512 / 48000 * 1000 = 32 / 3\<close>. The same
  calls on an engine that was never initialised leave the latencies 0.
\<close>

theorem latency_snapshot_witness:
  "(let e = engine_run (snd (initialize getDefaultAudioConfig AudioEngine_default))
              [Play, SetConfig (getDefaultAudioConfig\<lparr>buffer_size := 512\<rparr>),
               Tick (\<lambda>_. 1 / 2) (\<lambda>_. 0), Stop];
        e' = engine_run AudioEngine_default
              [Play, SetConfig (getDefaultAudioConfig\<lparr>buffer_size := 512\<rparr>),
               Tick (\<lambda>_. 1 / 2) (\<lambda>_. 0), Stop]
    in isValidSampleRate (sample_rate (config e)) \<and>
       isValidBufferSize (buffer_size (config e)) \<and>
       input_latency (getMetrics e) = spec_latency_ms (config e) \<and>
       output_latency (getMetrics e) = spec_latency_ms (config e) \<and>
       total_latency (getMetrics e) = 2 * spec_latency_ms (config e) \<and>
       spec_latency_ms (config e) = 32 / 3 \<and>
       input_latency (getMetrics e') = 0 \<and>
       output_latency (getMetrics e') = 0 \<and>
       total_latency (getMetrics e') = 0)"
proof -
  define e where
    "e = engine_run (snd (initialize getDefaultAudioConfig AudioEngine_default))
           [Play, SetConfig (getDefaultAudioConfig\<lparr>buffer_size := 512\<rparr>),
            Tick (\<lambda>_. 1 / 2) (\<lambda>_. 0), Stop]"
  define e' where
    "e' = engine_run AudioEngine_default
           [Play, SetConfig (getDefaultAudioConfig\<lparr>buffer_size := 512\<rparr>),
            Tick (\<lambda>_. 1 / 2) (\<lambda>_. 0), Stop]"
  have c: "config e = getDefaultAudioConfig\<lparr>buffer_size := 512\<rparr>"
    by (simp add: e_def engine_run_def initialize_def Let_def play_def setConfig_def
        getDefaultAudioConfig_def AudioEngine_default_def generateDefaultAudio_def
        calculateLatency_def tick_def generateSpectrumData_def processAudioBuffer_def
        AudioEngine_stop_def)
  have v1: "isValidSampleRate (sample_rate (config e))"
    by (simp add: c isValidSampleRate_def getDefaultAudioConfig_def)
  have v2: "isValidBufferSize (buffer_size (config e))"
    by (simp add: c isValidBufferSize_def)
  have l: "spec_latency_ms (config e) = 32 / 3"
    by (simp add: c spec_latency_ms_def getDefaultAudioConfig_def)
  have n: "list_all (\<lambda>op. \<not> is_initialize op)
             [Play, SetConfig (getDefaultAudioConfig\<lparr>buffer_size := 512\<rparr>),
              Tick (\<lambda>_. 1 / 2) (\<lambda>_. 0), Stop]"
    by simp
  from v1 v2 l n e_def e'_def
    latency_snapshot [OF v1 v2, of getDefaultAudioConfig AudioEngine_default
      "[Play, SetConfig (getDefaultAudioConfig\<lparr>buffer_size := 512\<rparr>),
        Tick (\<lambda>_. 1 / 2) (\<lambda>_. 0), Stop]"
      "[Play, SetConfig (getDefaultAudioConfig\<lparr>buffer_size := 512\<rparr>),
        Tick (\<lambda>_. 1 / 2) (\<lambda>_. 0), Stop]"]
  show ?thesis unfolding Let_def e_def [symmetric] e'_def [symmetric] by simp
qed

text \<open>
  Before the first call of \<^verbatim>\<open>initialize\<close> the equations do not hold. An engine as its
  constructor leaves it holds the valid pair 48000, 256, for which
  \<open>bufferSize / sampleRate * 1000 = 16 / 3\<close>, and \<^verbatim>\<open>getMetrics\<close> gives the latencies 0 of
  the member initialisers: none of the three equations holds.
\<close>

theorem latency_snapshot_counterexample:
  "isValidSampleRate (sample_rate (config AudioEngine_default)) \<and>
   isValidBufferSize (buffer_size (config AudioEngine_default)) \<and>
   spec_latency_ms (config AudioEngine_default) = 16 / 3 \<and>
   input_latency (getMetrics AudioEngine_default) = 0 \<and>
   output_latency (getMetrics AudioEngine_default) = 0 \<and>
   total_latency (getMetrics AudioEngine_default) = 0 \<and>
   input_latency (getMetrics AudioEngine_default) \<noteq> spec_latency_ms (config AudioEngine_default) \<and>
   output_latency (getMetrics AudioEngine_default) \<noteq> spec_latency_ms (config AudioEngine_default) \<and>
   total_latency (getMetrics AudioEngine_default) \<noteq> 2 * spec_latency_ms (config AudioEngine_default)"
  by (simp add: AudioEngine_default_def AudioMetrics_default_def getMetrics_def
      spec_latency_ms_def isValidSampleRate_def isValidBufferSize_def)

subsection \<open>Spectrum\<close>

lemma length_resize: "length (resize n xs) = n"
  by (simp add: resize_def)

text \<open>The loop that writes bin \<open>i\<close> for \<open>i\<close> from 0 to \<open>n - 1\<close> into a vector.\<close>

lemma fill_loop_upt:
  "n \<le> length ys \<Longrightarrow> foldl (\<lambda>xs i. xs[i := f i]) ys [0..<n] = map f [0..<n] @ drop n ys"
proof (induction n)
  case 0
  then show ?case by simp
next
  case (Suc n)
  then have "foldl (\<lambda>xs i. xs[i := f i]) ys [0..<Suc n] = (map f [0..<n] @ drop n ys)[n := f n]"
    by simp
  also have "\<dots> = map f [0..<n] @ (drop n ys)[0 := f n]"
    by (simp add: list_update_append)
  also have "(drop n ys)[0 := f n] = f n # drop (Suc n) ys"
  proof -
    from Suc.prems have "n < length ys" by simp
    then have "drop n ys = ys ! n # drop (Suc n) ys"
      by (rule Cons_nth_drop_Suc [symmetric])
    then show ?thesis by simp
  qed
  finally show ?case by simp
qed

lemma spectrum_loop_eq:
  "foldl (\<lambda>xs i. xs[i := f i]) (resize 32 ys) [0..<32] = map f [0..<32]"
  using fill_loop_upt [of 32 "resize 32 ys" f] by (simp add: length_resize)

lemma base_level_bounds: "0 \<le> base_level i \<and> base_level i \<le> 1"
  by (simp add: base_level_def)

lemma time_factor_bounds: "0 \<le> time_factor t i \<and> time_factor t i \<le> 1"
proof -
  have "- 1 \<le> sin (real_of_int t / 100 + real i * (1 / 2))"
    and "sin (real_of_int t / 100 + real i * (1 / 2)) \<le> 1"
    by (rule sin_ge_minus_one, rule sin_le_one)
  then show ?thesis unfolding time_factor_def by linarith
qed

lemma spectrum_bin_bounds:
  assumes "dis_in_range dis" and "i < 32"
  shows "0 \<le> spectrum_bin dis clock i \<and> spectrum_bin dis clock i \<le> 1"
proof -
  from assms have d: "0 \<le> dis i" "dis i \<le> 1" by (auto simp: dis_in_range_def)
  have b: "0 \<le> base_level i" "base_level i \<le> 1" using base_level_bounds by auto
  have t: "0 \<le> time_factor (clock i) i" "time_factor (clock i) i \<le> 1"
    using time_factor_bounds by auto
  have bd: "0 \<le> base_level i * dis i" "base_level i * dis i \<le> 1"
    using b d by (simp_all add: mult_le_one)
  show ?thesis unfolding spectrum_bin_def using bd t by (simp add: mult_le_one)
qed

lemma playing_processAudioBuffer: "playing (processAudioBuffer e) = playing e"
  by (simp add: processAudioBuffer_def Let_def)

lemma spectrum_tick_playing:
  "playing e \<Longrightarrow>
   spectrum_data (getMetrics (tick dis clock e)) = map (spectrum_bin dis clock) [0..<32]"
  by (simp add: tick_def generateSpectrumData_def playing_processAudioBuffer
      spectrum_loop_eq getMetrics_def Let_def)

lemma spectrum_tick_not_playing:
  "\<not> playing e \<Longrightarrow> spectrum_data (getMetrics (tick dis clock e)) = replicate 32 (1 / 10)"
  by (simp add: tick_def generateSpectrumData_def playing_processAudioBuffer
      map_replicate_const length_resize getMetrics_def Let_def)

text \<open>
  Claim C2. After a tick of the metrics producer, from any state of the engine and
  whether or not it is playing, the spectrum in the metrics has length 32 and every
  bin lies between 0 and 1, provided the random draws are in the range of the
  distribution. The state before the tick is arbitrary, so this covers every tick of
  every sequence.
\<close>

theorem spectrum_range:
  assumes "dis_in_range dis"
  shows "length (spectrum_data (getMetrics (tick dis clock e))) = 32 \<and>
         (\<forall>x \<in> set (spectrum_data (getMetrics (tick dis clock e))). 0 \<le> x \<and> x \<le> 1)"
proof (cases "playing e")
  case True
  then show ?thesis
    using spectrum_bin_bounds [OF assms]
    by (auto simp: spectrum_tick_playing)
next
  case False
  then show ?thesis by (simp add: spectrum_tick_not_playing)
qed

text \<open>
  A playing engine, draws of 0.5 and a clock that reads 0: every bin of the spectrum
  after the tick is between 0 and 1.
\<close>

theorem spectrum_range_witness:
  "(let e = tick (\<lambda>_. 1 / 2) (\<lambda>_. 0)
              (play (snd (initialize getDefaultAudioConfig AudioEngine_default)))
    in dis_in_range (\<lambda>_. 1 / 2) \<and>
       length (spectrum_data (getMetrics e)) = 32 \<and>
       list_all (\<lambda>x. 0 \<le> x \<and> x \<le> 1) (spectrum_data (getMetrics e)))"
proof -
  have d: "dis_in_range (\<lambda>_. 1 / 2)"
    by (simp add: dis_in_range_def)
  from d spectrum_range [OF d, of "\<lambda>_. 0"
      "play (snd (initialize getDefaultAudioConfig AudioEngine_default))"]
  show ?thesis by (simp add: list_all_iff Let_def)
qed

text \<open>
  Claim C3. In a state in which playback is inactive, one tick of the metrics producer
  leaves a spectrum of 32 bins, each equal to 0.1; playback is still inactive after
  the tick, so the same holds after every further tick.
\<close>

theorem spectrum_flat_when_inactive:
  "\<not> playing e \<Longrightarrow>
   spectrum_data (getMetrics (tick dis clock e)) = replicate 32 (1 / 10) \<and>
   \<not> playing (tick dis clock e)"
  by (simp add: tick_def generateSpectrumData_def playing_processAudioBuffer
      map_replicate_const length_resize getMetrics_def Let_def)

text \<open>
  The engine is stopped while playing: \<^verbatim>\<open>stop\<close> leaves 32 zeros, the next tick
  32 times 0.1.
\<close>

theorem spectrum_flat_when_inactive_witness:
  "(let e = AudioEngine_stop (play (snd (initialize getDefaultAudioConfig AudioEngine_default)))
    in \<not> playing e \<and>
       spectrum_data (getMetrics e) = replicate 32 0 \<and>
       spectrum_data (getMetrics (tick (\<lambda>_. 1 / 2) (\<lambda>_. 0) e)) = replicate 32 (1 / 10) \<and>
       \<not> playing (tick (\<lambda>_. 1 / 2) (\<lambda>_. 0) e))"
proof -
  define e where
    "e = AudioEngine_stop (play (snd (initialize getDefaultAudioConfig AudioEngine_default)))"
  have p: "\<not> playing e"
    by (simp add: e_def AudioEngine_stop_def Let_def)
  have z: "spectrum_data (getMetrics e) = replicate 32 0"
    by (simp add: e_def AudioEngine_stop_def getMetrics_def Let_def)
  from p z spectrum_flat_when_inactive [OF p, of "\<lambda>_. 1 / 2" "\<lambda>_. 0"]
  show ?thesis by (simp add: e_def Let_def)
qed

subsection \<open>The JSON handlers on the default objects\<close>

text \<open>
  The bodies that the configuration and the device handler produce for a configuration
  manager and a device manager as their constructors leave them.
\<close>

lemma handleConfigAPI_defaults:
  \<open>handleConfigAPI (setConfigManager (Some initializeDefaults) (WebServer_new 7788)) []
     = ''{"config": {"sample_rate": 48000, "buffer_size": 256, "bit_depth": 24, '' @
       ''"channels": 2}}''\<close>
  by (simp add: handleConfigAPI_def setConfigManager_def initializeDefaults_def
      getAudioConfig_def getDefaultSystemConfig_def getDefaultAudioConfig_def
      int_to_string_def nat_to_string.simps digit_def)

lemma handleDevicesAPI_defaults:
  \<open>handleDevicesAPI (setDeviceManager (Some DeviceManager_new) (WebServer_new 7788)) []
     = ''{"devices": ['' @
       ''{"id": 1, "name": "Generic HD Audio Device (WDM)", "type": "WDM", "status": "Active"},'' @
       ''{"id": 2, "name": "Realtek ASIO (KS)", "type": "KS", "status": "Disabled"},'' @
       ''{"id": 3, "name": "NVIDIA Broadcast (WASAPI)", "type": "WASAPI", "status": "Inactive"},'' @
       ''{"id": 4, "name": "Focusrite USB ASIO (WDM)", "type": "WDM", "status": "Inactive"}]}''\<close>
  by (simp add: handleDevicesAPI_def setDeviceManager_def DeviceManager_new_def
      populateDefaultDevices_def createMockDevice_def getDevices_def device_json_def
      int_to_string_def nat_to_string.simps digit_def Let_def)

subsection \<open>Stopping the server\<close>

text \<open>
  Claim C9. \<^verbatim>\<open>stop()\<close> is idempotent: in every state of the server a second call
  leaves the state that the first call produced, in which the server is not running.
  The call is a single assignment; it cannot fail and waits for nothing.
\<close>

theorem stop_idempotent: "stop (stop srv) = stop srv \<and> \<not> isRunning (stop srv)"
  by (simp add: stop_def isRunning_def)

subsection \<open>The CORS headers\<close>

text \<open>
  The position of the first \<^verbatim>\<open>\r\n\r\n\<close> in a response that consists of a status
  line, one header line, the empty line and a body.
\<close>

lemma find_str_skip:
  "CR \<notin> set xs \<Longrightarrow>
   find_str (CRLF @ CRLF) (xs @ CR # rest)
     = map_option (\<lambda>i. length xs + i) (find_str (CRLF @ CRLF) (CR # rest))"
proof (induction xs)
  case Nil
  show ?case by (simp add: option.map_ident)
next
  case (Cons x xs)
  then have "x \<noteq> CR" by auto
  then have "\<not> prefix (CRLF @ CRLF) (x # xs @ CR # rest)"
    by (simp add: CRLF_def)
  then have "find_str (CRLF @ CRLF) ((x # xs) @ CR # rest)
      = map_option Suc (find_str (CRLF @ CRLF) (xs @ CR # rest))"
    by simp
  also have "\<dots> = map_option Suc
      (map_option (\<lambda>i. length xs + i) (find_str (CRLF @ CRLF) (CR # rest)))"
    using Cons by simp
  finally show ?case by (simp add: option.map_comp comp_def)
qed

lemma find_str_here: "find_str (CRLF @ CRLF) (CRLF @ CRLF @ body) = Some 0"
  by (simp add: CRLF_def)

lemma find_header_end:
  assumes "CR \<notin> set status_line" and "CR \<notin> set hdr" and "hdr \<noteq> []"
  shows "find_str (CRLF @ CRLF) (status_line @ CRLF @ hdr @ CRLF @ CRLF @ body)
           = Some (length (status_line @ CRLF @ hdr))"
proof -
  obtain h hs where hdr: "hdr = h # hs" using assms(3) by (cases hdr) auto
  with assms(2) have h: "h \<noteq> CR" by auto
  have lf: "LF \<noteq> CR" by (simp add: LF_def CR_def)
  have 1: "find_str (CRLF @ CRLF) (hdr @ CRLF @ CRLF @ body) = Some (length hdr)"
    using find_str_skip [OF assms(2), of "LF # CRLF @ body"] find_str_here [of body]
    by (simp add: CRLF_def)
  have "\<not> prefix (CRLF @ CRLF) (LF # hdr @ CRLF @ CRLF @ body)"
    using lf by (simp add: CRLF_def)
  then have 2: "find_str (CRLF @ CRLF) (LF # hdr @ CRLF @ CRLF @ body) = Some (Suc (length hdr))"
    using 1 by simp
  have "\<not> prefix (CRLF @ CRLF) (CR # LF # hdr @ CRLF @ CRLF @ body)"
    using h by (simp add: CRLF_def hdr)
  then have 3: "find_str (CRLF @ CRLF) (CR # LF # hdr @ CRLF @ CRLF @ body)
                  = Some (Suc (Suc (length hdr)))"
    using 2 by simp
  show ?thesis
    using find_str_skip [OF assms(1), of "LF # hdr @ CRLF @ CRLF @ body"] 3
    by (simp add: CRLF_def)
qed

text \<open>
  \<^verbatim>\<open>addCORSHeaders\<close> on such a response. The text it copies after the inserted
  headers begins with the \<^verbatim>\<open>\r\n\r\n\<close> it searched for, and the inserted block ends
  with \<^verbatim>\<open>\r\n\<close> itself.
\<close>

lemma addCORSHeaders_response:
  assumes "CR \<notin> set status_line" and "CR \<notin> set hdr" and "hdr \<noteq> []"
  shows "addCORSHeaders (status_line @ CRLF @ hdr @ CRLF @ CRLF @ body)
           = status_line @ CRLF @ hdr @ CRLF @ cors_headers @ CRLF @ CRLF @ body"
proof -
  let ?pre = "status_line @ CRLF @ hdr"
  have "addCORSHeaders (?pre @ CRLF @ CRLF @ body)
          = take (length ?pre) (?pre @ CRLF @ CRLF @ body) @ CRLF @ cors_headers @
            drop (length ?pre) (?pre @ CRLF @ CRLF @ body)"
    using find_header_end [OF assms, of body]
    by (simp add: addCORSHeaders_def)
  also have "\<dots> = ?pre @ CRLF @ cors_headers @ CRLF @ CRLF @ body"
    by simp
  finally show ?thesis by simp
qed

lemma CR_notin_getContentType: "CR \<notin> set (getContentType p)"
  by (simp add: getContentType_def CR_def Let_def split: option.split)

lemma json_response:
  "addCORSHeaders
     (''HTTP/1.1 200 OK'' @ CRLF @ ''Content-Type: application/json'' @ CRLF @ CRLF @ body)
     = ''HTTP/1.1 200 OK'' @ CRLF @ ''Content-Type: application/json'' @ CRLF @ cors_headers @
       CRLF @ CRLF @ body"
  by (rule addCORSHeaders_response) (simp_all add: CR_def)

lemma static_response:
  "addCORSHeaders
     (''HTTP/1.1 200 OK'' @ CRLF @ ''Content-Type: '' @ getContentType p @ CRLF @ CRLF @ body)
     = ''HTTP/1.1 200 OK'' @ CRLF @ ''Content-Type: '' @ getContentType p @ CRLF @ cors_headers @
       CRLF @ CRLF @ body"
  using addCORSHeaders_response [of "''HTTP/1.1 200 OK''" "''Content-Type: '' @ getContentType p" body]
    CR_notin_getContentType [of p]
  by (simp add: CR_def)

lemma not_found_with_cors:
  "addCORSHeaders not_found_response
     = ''HTTP/1.1 404 Not Found'' @ CRLF @ ''Content-Type: text/html'' @ CRLF @ cors_headers @
       CRLF @ CRLF @ ''<h1>404 Not Found</h1>''"
  unfolding not_found_response_def
  by (rule addCORSHeaders_response) (simp_all add: CR_def)

subsection \<open>The route table\<close>

lemma find_route_None_iff:
  "find_route rs m p = None \<longleftrightarrow> (\<forall>r \<in> set rs. route_method r \<noteq> m \<or> path r \<noteq> p)"
  by (induction rs) auto

lemma find_route_Some:
  "find_route rs m p = Some r \<Longrightarrow> r \<in> set rs \<and> route_method r = m \<and> path r = p"
  by (induction rs) (auto split: if_splits)

lemma handleRequest_route:
  "find_route (routes srv) m p = Some route \<Longrightarrow>
   handleRequest fs srv m p params
     = ''HTTP/1.1 200 OK'' @ CRLF @ ''Content-Type: application/json'' @ CRLF @
       cors_headers @ CRLF @ CRLF @ call_handler srv (handler route) params"
  using json_response [of "call_handler srv (handler route) params"]
  by (simp add: handleRequest_def Let_def)

lemma routes_WebServer_new:
  "routes (WebServer_new n) =
     [\<lparr>route_method = ''GET'', path = ''/api/devices'', handler = DevicesAPI\<rparr>,
      \<lparr>route_method = ''GET'', path = ''/api/config'', handler = ConfigAPI\<rparr>,
      \<lparr>route_method = ''GET'', path = ''/api/status'', handler = StatusAPI\<rparr>,
      \<lparr>route_method = ''POST'', path = ''/api/audio/play'', handler = AudioAPI\<rparr>]"
  by (simp add: WebServer_new_def setupRoutes_def addRoute_def)

text \<open>
  The header section of a response with five lines before the empty line, and the
  responses of \<^verbatim>\<open>handleRequest\<close> written out: the inserted block is the three CORS
  header lines.
\<close>

lemma find_str_line:
  assumes "CR \<notin> set line" and "CR \<notin> set nxt" and "nxt \<noteq> []"
  shows "find_str (CRLF @ CRLF) (line @ CRLF @ nxt @ rest)
           = map_option (\<lambda>i. length line + 2 + i) (find_str (CRLF @ CRLF) (nxt @ rest))"
proof -
  obtain h hs where nxt: "nxt = h # hs" using assms(3) by (cases nxt) auto
  with assms(2) have h: "h \<noteq> CR" by auto
  have lf: "LF \<noteq> CR" by (simp add: LF_def CR_def)
  have "\<not> prefix (CRLF @ CRLF) (LF # nxt @ rest)"
    using lf by (simp add: CRLF_def)
  then have 1: "find_str (CRLF @ CRLF) (LF # nxt @ rest)
                  = map_option Suc (find_str (CRLF @ CRLF) (nxt @ rest))"
    by simp
  have "\<not> prefix (CRLF @ CRLF) (CR # LF # nxt @ rest)"
    using h by (simp add: CRLF_def nxt)
  then have 2: "find_str (CRLF @ CRLF) (CR # LF # nxt @ rest)
                  = map_option Suc (map_option Suc (find_str (CRLF @ CRLF) (nxt @ rest)))"
    using 1 by simp
  show ?thesis
    using find_str_skip [OF assms(1), of "LF # nxt @ rest"] 2
    by (simp add: CRLF_def option.map_comp comp_def)
qed

lemma find_str_last_line:
  assumes "CR \<notin> set line"
  shows "find_str (CRLF @ CRLF) (line @ CRLF @ CRLF @ rest) = Some (length line)"
  using find_str_skip [OF assms, of "LF # CRLF @ rest"] find_str_here [of rest]
  by (simp add: CRLF_def)

lemma find_head_end:
  assumes "CR \<notin> set l1" and "CR \<notin> set l2" and "CR \<notin> set l3" and "CR \<notin> set l4"
    and "CR \<notin> set l5" and "l2 \<noteq> []" and "l3 \<noteq> []" and "l4 \<noteq> []" and "l5 \<noteq> []"
  shows "find_str (CRLF @ CRLF)
           (l1 @ CRLF @ l2 @ CRLF @ l3 @ CRLF @ l4 @ CRLF @ l5 @ CRLF @ CRLF @ rest)
         = Some (length (l1 @ CRLF @ l2 @ CRLF @ l3 @ CRLF @ l4 @ CRLF @ l5))"
proof -
  have 5: "find_str (CRLF @ CRLF) (l5 @ CRLF @ CRLF @ rest) = Some (length l5)"
    using assms(5) by (rule find_str_last_line)
  have 4: "find_str (CRLF @ CRLF) (l4 @ CRLF @ l5 @ CRLF @ CRLF @ rest)
             = Some (length (l4 @ CRLF @ l5))"
    using find_str_line [OF assms(4) assms(5) assms(9), of "CRLF @ CRLF @ rest"] 5
    by (simp add: CRLF_def)
  have 3: "find_str (CRLF @ CRLF) (l3 @ CRLF @ l4 @ CRLF @ l5 @ CRLF @ CRLF @ rest)
             = Some (length (l3 @ CRLF @ l4 @ CRLF @ l5))"
    using find_str_line [OF assms(3) assms(4) assms(8), of "CRLF @ l5 @ CRLF @ CRLF @ rest"] 4
    by (simp add: CRLF_def)
  have 2: "find_str (CRLF @ CRLF) (l2 @ CRLF @ l3 @ CRLF @ l4 @ CRLF @ l5 @ CRLF @ CRLF @ rest)
             = Some (length (l2 @ CRLF @ l3 @ CRLF @ l4 @ CRLF @ l5))"
    using find_str_line [OF assms(2) assms(3) assms(7),
        of "CRLF @ l4 @ CRLF @ l5 @ CRLF @ CRLF @ rest"] 3
    by (simp add: CRLF_def)
  show ?thesis
    using find_str_line [OF assms(1) assms(2) assms(6),
        of "CRLF @ l3 @ CRLF @ l4 @ CRLF @ l5 @ CRLF @ CRLF @ rest"] 2
    by (simp add: CRLF_def)
qed

lemma http_head_lines:
  assumes "CR \<notin> set l1" and "CR \<notin> set l2" and "CR \<notin> set l3" and "CR \<notin> set l4"
    and "CR \<notin> set l5" and "l2 \<noteq> []" and "l3 \<noteq> []" and "l4 \<noteq> []" and "l5 \<noteq> []"
  shows "http_head (l1 @ CRLF @ l2 @ CRLF @ l3 @ CRLF @ l4 @ CRLF @ l5 @ CRLF @ CRLF @ rest)
         = l1 @ CRLF @ l2 @ CRLF @ l3 @ CRLF @ l4 @ CRLF @ l5"
proof -
  let ?h = "l1 @ CRLF @ l2 @ CRLF @ l3 @ CRLF @ l4 @ CRLF @ l5"
  have "http_head (?h @ CRLF @ CRLF @ rest) = take (length ?h) (?h @ CRLF @ CRLF @ rest)"
    using find_head_end [OF assms, of rest] by (simp add: http_head_def)
  also have "\<dots> = ?h" by simp
  finally show ?thesis by simp
qed

lemma cors_response:
  assumes "CR \<notin> set status_line" and "CR \<notin> set content_type"
  shows "status_line @ CRLF @ ''Content-Type: '' @ content_type @ CRLF @ cors_headers @
           CRLF @ CRLF @ body
         = status_line @ CRLF @ ''Content-Type: '' @ content_type @ CRLF @
           ''Access-Control-Allow-Origin: *'' @ CRLF @
           ''Access-Control-Allow-Methods: GET, POST, PUT, DELETE, OPTIONS'' @ CRLF @
           ''Access-Control-Allow-Headers: Content-Type, Authorization'' @ CRLF @
           CRLF @ CRLF @ body"
    and "http_head (status_line @ CRLF @ ''Content-Type: '' @ content_type @ CRLF @
           cors_headers @ CRLF @ CRLF @ body)
         = status_line @ CRLF @ ''Content-Type: '' @ content_type @ CRLF @
           ''Access-Control-Allow-Origin: *'' @ CRLF @
           ''Access-Control-Allow-Methods: GET, POST, PUT, DELETE, OPTIONS'' @ CRLF @
           ''Access-Control-Allow-Headers: Content-Type, Authorization''"
proof -
  show "status_line @ CRLF @ ''Content-Type: '' @ content_type @ CRLF @ cors_headers @
           CRLF @ CRLF @ body
         = status_line @ CRLF @ ''Content-Type: '' @ content_type @ CRLF @
           ''Access-Control-Allow-Origin: *'' @ CRLF @
           ''Access-Control-Allow-Methods: GET, POST, PUT, DELETE, OPTIONS'' @ CRLF @
           ''Access-Control-Allow-Headers: Content-Type, Authorization'' @ CRLF @
           CRLF @ CRLF @ body"
    by (simp add: cors_headers_def)
  have "http_head (status_line @ CRLF @ (''Content-Type: '' @ content_type) @ CRLF @
           ''Access-Control-Allow-Origin: *'' @ CRLF @
           ''Access-Control-Allow-Methods: GET, POST, PUT, DELETE, OPTIONS'' @ CRLF @
           ''Access-Control-Allow-Headers: Content-Type, Authorization'' @ CRLF @ CRLF @
           (CRLF @ body))
         = status_line @ CRLF @ (''Content-Type: '' @ content_type) @ CRLF @
           ''Access-Control-Allow-Origin: *'' @ CRLF @
           ''Access-Control-Allow-Methods: GET, POST, PUT, DELETE, OPTIONS'' @ CRLF @
           ''Access-Control-Allow-Headers: Content-Type, Authorization''"
    using assms by (intro http_head_lines) (simp_all add: CR_def)
  then show "http_head (status_line @ CRLF @ ''Content-Type: '' @ content_type @ CRLF @
           cors_headers @ CRLF @ CRLF @ body)
         = status_line @ CRLF @ ''Content-Type: '' @ content_type @ CRLF @
           ''Access-Control-Allow-Origin: *'' @ CRLF @
           ''Access-Control-Allow-Methods: GET, POST, PUT, DELETE, OPTIONS'' @ CRLF @
           ''Access-Control-Allow-Headers: Content-Type, Authorization''"
    by (simp add: cors_headers_def)
qed

lemma cors_response_ex:
  assumes r: "r = status_line @ CRLF @ ''Content-Type: '' @ content_type @ CRLF @ cors_headers @
                  CRLF @ CRLF @ body"
    and s: "status_line \<in> {''HTTP/1.1 200 OK'', ''HTTP/1.1 404 Not Found''}"
    and c: "CR \<notin> set content_type"
  shows "\<exists>status_line content_type body.
     status_line \<in> {''HTTP/1.1 200 OK'', ''HTTP/1.1 404 Not Found''} \<and>
     CR \<notin> set content_type \<and>
     r = status_line @ CRLF @ ''Content-Type: '' @ content_type @ CRLF @
         ''Access-Control-Allow-Origin: *'' @ CRLF @
         ''Access-Control-Allow-Methods: GET, POST, PUT, DELETE, OPTIONS'' @ CRLF @
         ''Access-Control-Allow-Headers: Content-Type, Authorization'' @ CRLF @
         CRLF @ CRLF @ body \<and>
     http_head r
       = status_line @ CRLF @ ''Content-Type: '' @ content_type @ CRLF @
         ''Access-Control-Allow-Origin: *'' @ CRLF @
         ''Access-Control-Allow-Methods: GET, POST, PUT, DELETE, OPTIONS'' @ CRLF @
         ''Access-Control-Allow-Headers: Content-Type, Authorization''"
proof -
  from s have n: "CR \<notin> set status_line" by (auto simp: CR_def)
  from r cors_response(1) [OF n c, of body]
  have 1: "r = status_line @ CRLF @ ''Content-Type: '' @ content_type @ CRLF @
         ''Access-Control-Allow-Origin: *'' @ CRLF @
         ''Access-Control-Allow-Methods: GET, POST, PUT, DELETE, OPTIONS'' @ CRLF @
         ''Access-Control-Allow-Headers: Content-Type, Authorization'' @ CRLF @
         CRLF @ CRLF @ body"
    by (rule trans)
  from cors_response(2) [OF n c, of body]
  have 2: "http_head r
       = status_line @ CRLF @ ''Content-Type: '' @ content_type @ CRLF @
         ''Access-Control-Allow-Origin: *'' @ CRLF @
         ''Access-Control-Allow-Methods: GET, POST, PUT, DELETE, OPTIONS'' @ CRLF @
         ''Access-Control-Allow-Headers: Content-Type, Authorization''"
    unfolding r .
  from s c 1 2 show ?thesis by blast
qed

text \<open>
  Claim C6. Every response of \<^verbatim>\<open>handleRequest\<close>, whether it comes from a route
  handler, from a static file or is the 404 response, contains the three CORS headers
  \<^verbatim>\<open>Access-Control-Allow-Origin: *\<close>,
  \<^verbatim>\<open>Access-Control-Allow-Methods: GET, POST, PUT, DELETE, OPTIONS\<close> and
  \<^verbatim>\<open>Access-Control-Allow-Headers: Content-Type, Authorization\<close>, one per line, after the
  status line and the \<^verbatim>\<open>Content-Type\<close> line and before the empty line: the header
  section of the response is these five lines. After the empty line come the
  \<^verbatim>\<open>\r\n\<close> that \<^verbatim>\<open>addCORSHeaders\<close> copies once more and the body.
\<close>

theorem cors_headers_in_every_response:
  "\<exists>status_line content_type body.
     status_line \<in> {''HTTP/1.1 200 OK'', ''HTTP/1.1 404 Not Found''} \<and>
     CR \<notin> set content_type \<and>
     handleRequest fs srv m p params
       = status_line @ CRLF @ ''Content-Type: '' @ content_type @ CRLF @
         ''Access-Control-Allow-Origin: *'' @ CRLF @
         ''Access-Control-Allow-Methods: GET, POST, PUT, DELETE, OPTIONS'' @ CRLF @
         ''Access-Control-Allow-Headers: Content-Type, Authorization'' @ CRLF @
         CRLF @ CRLF @ body \<and>
     http_head (handleRequest fs srv m p params)
       = status_line @ CRLF @ ''Content-Type: '' @ content_type @ CRLF @
         ''Access-Control-Allow-Origin: *'' @ CRLF @
         ''Access-Control-Allow-Methods: GET, POST, PUT, DELETE, OPTIONS'' @ CRLF @
         ''Access-Control-Allow-Headers: Content-Type, Authorization''"
proof (cases "find_route (routes srv) m p")
  case (Some route)
  then have "handleRequest fs srv m p params
      = ''HTTP/1.1 200 OK'' @ CRLF @ ''Content-Type: '' @ ''application/json'' @ CRLF @
        cors_headers @ CRLF @ CRLF @ call_handler srv (handler route) params"
    using json_response by (simp add: handleRequest_def Let_def)
  moreover have "''HTTP/1.1 200 OK'' \<in> {''HTTP/1.1 200 OK'', ''HTTP/1.1 404 Not Found''}"
    by simp
  moreover have "CR \<notin> set ''application/json''" by (simp add: CR_def)
  ultimately show ?thesis by (rule cors_response_ex)
next
  case None
  let ?file = "if p = ''/'' then ''/index.html'' else p"
  show ?thesis
  proof (cases "m = ''GET'' \<and> serveStaticFile fs srv ?file \<noteq> []")
    case True
    with None have "handleRequest fs srv m p params
      = ''HTTP/1.1 200 OK'' @ CRLF @ ''Content-Type: '' @ getContentType ?file @ CRLF @
        cors_headers @ CRLF @ CRLF @ serveStaticFile fs srv ?file"
      using static_response [of ?file] by (simp add: handleRequest_def Let_def)
    moreover have "''HTTP/1.1 200 OK'' \<in> {''HTTP/1.1 200 OK'', ''HTTP/1.1 404 Not Found''}"
      by simp
    moreover note CR_notin_getContentType [of ?file]
    ultimately show ?thesis by (rule cors_response_ex)
  next
    case False
    with None have "handleRequest fs srv m p params
      = ''HTTP/1.1 404 Not Found'' @ CRLF @ ''Content-Type: '' @ ''text/html'' @ CRLF @
        cors_headers @ CRLF @ CRLF @ ''<h1>404 Not Found</h1>''"
      using not_found_with_cors by (auto simp: handleRequest_def Let_def)
    moreover have "''HTTP/1.1 404 Not Found'' \<in> {''HTTP/1.1 200 OK'', ''HTTP/1.1 404 Not Found''}"
      by simp
    moreover have "CR \<notin> set ''text/html''" by (simp add: CR_def)
    ultimately show ?thesis by (rule cors_response_ex)
  qed
qed

subsection \<open>Not found\<close>

text \<open>
  The body of the 404 response before and after \<^verbatim>\<open>addCORSHeaders\<close>: the string that
  \<^verbatim>\<open>handleRequest\<close> builds has the fixed HTML as its body, the string it returns has
  one \<^verbatim>\<open>\r\n\<close> before it.
\<close>

lemma http_body_not_found_response:
  "http_body not_found_response = ''<h1>404 Not Found</h1>''"
  by (simp add: http_body_def not_found_response_def CRLF_def CR_def LF_def)

lemma http_body_not_found_with_cors:
  "http_body (''HTTP/1.1 404 Not Found'' @ CRLF @ ''Content-Type: text/html'' @ CRLF @
             cors_headers @ CRLF @ CRLF @ ''<h1>404 Not Found</h1>'')
     = CRLF @ ''<h1>404 Not Found</h1>''"
  by (simp add: http_body_def cors_headers_def CRLF_def CR_def LF_def)

text \<open>
  Claim C5. A GET request whose path is the path of no registered GET route, and for
  which the static file yields no content, is answered with the 404 status line and
  the fixed HTML \<^verbatim>\<open><h1>404 Not Found</h1>\<close>, whatever the parameters. The theorem
  gives the response byte for byte. Its body is not the fixed HTML alone: the
  \<^verbatim>\<open>\r\n\r\n\<close> that \<^verbatim>\<open>addCORSHeaders\<close> copies after the inserted headers follows a
  block that ends with \<^verbatim>\<open>\r\n\<close> already, so the body begins with a \<^verbatim>\<open>\r\n\<close>.
\<close>

theorem not_found_for_unmatched_get:
  assumes "\<forall>r \<in> set (routes srv). route_method r \<noteq> ''GET'' \<or> path r \<noteq> p"
    and "serveStaticFile fs srv (if p = ''/'' then ''/index.html'' else p) = []"
  shows "handleRequest fs srv ''GET'' p params
           = ''HTTP/1.1 404 Not Found'' @ CRLF @ ''Content-Type: text/html'' @ CRLF @
             cors_headers @ CRLF @ CRLF @ ''<h1>404 Not Found</h1>'' \<and>
         http_body (handleRequest fs srv ''GET'' p params) = CRLF @ ''<h1>404 Not Found</h1>''"
proof -
  from assms(1) have "find_route (routes srv) ''GET'' p = None"
    by (simp only: find_route_None_iff)
  with assms(2) have "handleRequest fs srv ''GET'' p params
           = ''HTTP/1.1 404 Not Found'' @ CRLF @ ''Content-Type: text/html'' @ CRLF @
             cors_headers @ CRLF @ CRLF @ ''<h1>404 Not Found</h1>''"
    by (simp add: handleRequest_def Let_def not_found_with_cors)
  then show ?thesis
    by (simp only: http_body_not_found_with_cors simp_thms)
qed

text \<open>
  A server as its constructor leaves it, no static files, and the request
  \<^verbatim>\<open>GET /api/device?x=1\<close>.
\<close>

theorem not_found_for_unmatched_get_witness:
  "handleRequest Map.empty (WebServer_new 7788) ''GET'' ''/api/device'' [(''x'', ''1'')]
     = ''HTTP/1.1 404 Not Found'' @ CRLF @ ''Content-Type: text/html'' @ CRLF @
       cors_headers @ CRLF @ CRLF @ ''<h1>404 Not Found</h1>'' \<and>
   http_body (handleRequest Map.empty (WebServer_new 7788) ''GET'' ''/api/device'' [(''x'', ''1'')])
     = CRLF @ ''<h1>404 Not Found</h1>'' \<and>
   http_body (handleRequest Map.empty (WebServer_new 7788) ''GET'' ''/api/device'' [(''x'', ''1'')])
     \<noteq> ''<h1>404 Not Found</h1>''"
proof -
  have r: "\<forall>r \<in> set (routes (WebServer_new 7788)).
             route_method r \<noteq> ''GET'' \<or> path r \<noteq> ''/api/device''"
    by (simp add: routes_WebServer_new)
  have f: "serveStaticFile Map.empty (WebServer_new 7788)
             (if ''/api/device'' = ''/'' then ''/index.html'' else ''/api/device'') = []"
    by (simp add: serveStaticFile_def)
  have n: "CRLF @ ''<h1>404 Not Found</h1>'' \<noteq> ''<h1>404 Not Found</h1>''"
    by (simp add: CRLF_def)
  note inst = not_found_for_unmatched_get [OF r f, of "[(''x'', ''1'')]"]
  from inst have b:
    "http_body (handleRequest Map.empty (WebServer_new 7788) ''GET'' ''/api/device'' [(''x'', ''1'')])
       = CRLF @ ''<h1>404 Not Found</h1>''"
    by (rule conjunct2)
  have c:
    "http_body (handleRequest Map.empty (WebServer_new 7788) ''GET'' ''/api/device'' [(''x'', ''1'')])
       \<noteq> ''<h1>404 Not Found</h1>''"
    unfolding b by (rule n)
  from inst c show ?thesis by blast
qed

subsection \<open>Missing collaborators\<close>

text \<open>
  Claim C7. A request that matches a registered route is answered with the status line
  \<^verbatim>\<open>HTTP/1.1 200 OK\<close> whatever collaborators are present. When the handler of the
  route needs the device manager, the configuration manager or the audio engine and
  that collaborator is absent, the body is the JSON object \<^verbatim>\<open>{"error": "..."}\<close> that
  names the collaborator.
\<close>

theorem missing_collaborator_status_200:
  assumes \<open>find_route (routes srv) m p = Some route\<close>
  shows \<open>(\<exists>body. handleRequest fs srv m p params
              = ''HTTP/1.1 200 OK'' @ CRLF @ ''Content-Type: application/json'' @ CRLF @
                cors_headers @ CRLF @ CRLF @ body) \<and>
         (handler route = DevicesAPI \<and> device_manager srv = None \<longrightarrow>
            handleRequest fs srv m p params
              = ''HTTP/1.1 200 OK'' @ CRLF @ ''Content-Type: application/json'' @ CRLF @
                cors_headers @ CRLF @ CRLF @ ''{"error": "Device manager not available"}'') \<and>
         (handler route = ConfigAPI \<and> config_manager srv = None \<longrightarrow>
            handleRequest fs srv m p params
              = ''HTTP/1.1 200 OK'' @ CRLF @ ''Content-Type: application/json'' @ CRLF @
                cors_headers @ CRLF @ CRLF @ ''{"error": "Config manager not available"}'') \<and>
         (handler route = AudioAPI \<and> audio_engine srv = None \<longrightarrow>
            handleRequest fs srv m p params
              = ''HTTP/1.1 200 OK'' @ CRLF @ ''Content-Type: application/json'' @ CRLF @
                cors_headers @ CRLF @ CRLF @ ''{"error": "Audio engine not available"}'')\<close>
  unfolding handleRequest_route [OF assms]
  by (simp add: handleDevicesAPI_def handleConfigAPI_def handleAudioAPI_def)

text \<open>A server as its constructor leaves it, with no collaborator set.\<close>

theorem missing_collaborator_status_200_witness:
  \<open>handleRequest Map.empty (WebServer_new 7788) ''GET'' ''/api/devices'' []
     = ''HTTP/1.1 200 OK'' @ CRLF @ ''Content-Type: application/json'' @ CRLF @
       cors_headers @ CRLF @ CRLF @ ''{"error": "Device manager not available"}'' \<and>
   handleRequest Map.empty (WebServer_new 7788) ''GET'' ''/api/config'' []
     = ''HTTP/1.1 200 OK'' @ CRLF @ ''Content-Type: application/json'' @ CRLF @
       cors_headers @ CRLF @ CRLF @ ''{"error": "Config manager not available"}'' \<and>
   handleRequest Map.empty (WebServer_new 7788) ''POST'' ''/api/audio/play'' []
     = ''HTTP/1.1 200 OK'' @ CRLF @ ''Content-Type: application/json'' @ CRLF @
       cors_headers @ CRLF @ CRLF @ ''{"error": "Audio engine not available"}''\<close>
proof -
  have d: "find_route (routes (WebServer_new 7788)) ''GET'' ''/api/devices''
             = Some \<lparr>route_method = ''GET'', path = ''/api/devices'', handler = DevicesAPI\<rparr>"
    by (simp add: routes_WebServer_new)
  have c: "find_route (routes (WebServer_new 7788)) ''GET'' ''/api/config''
             = Some \<lparr>route_method = ''GET'', path = ''/api/config'', handler = ConfigAPI\<rparr>"
    by (simp add: routes_WebServer_new)
  have a: "find_route (routes (WebServer_new 7788)) ''POST'' ''/api/audio/play''
             = Some \<lparr>route_method = ''POST'', path = ''/api/audio/play'', handler = AudioAPI\<rparr>"
    by (simp add: routes_WebServer_new)
  have n: "device_manager (WebServer_new 7788) = None"
      "config_manager (WebServer_new 7788) = None"
      "audio_engine (WebServer_new 7788) = None"
    by (simp_all add: WebServer_new_def setupRoutes_def addRoute_def)
  from n
    missing_collaborator_status_200 [OF d, of Map.empty "[]"]
    missing_collaborator_status_200 [OF c, of Map.empty "[]"]
    missing_collaborator_status_200 [OF a, of Map.empty "[]"]
  show ?thesis by simp
qed

subsection \<open>Reading the request line\<close>

lemma find_char_append:
  "c \<notin> set p \<Longrightarrow> find_char c (p @ c # q) = Some (length p)"
  by (induction p) auto

lemma find_char_None: "c \<notin> set p \<Longrightarrow> find_char c p = None"
  by (induction p) auto

lemma extract_query_parameters_append:
  "CHR ''?'' \<notin> set p \<Longrightarrow> extract_query_parameters (p @ CHR ''?'' # q) = (p, parse_query q)"
  by (simp add: extract_query_parameters_def find_char_append)

lemma extract_query_parameters_bare:
  "CHR ''?'' \<notin> set p \<Longrightarrow> extract_query_parameters p = (p, [])"
  by (simp add: extract_query_parameters_def find_char_None)

lemma extract_token_prefix:
  assumes "w \<noteq> []" and "\<forall>c \<in> set w. \<not> isspace c"
  shows "extract_token (w @ s)
           = (w @ takeWhile (\<lambda>c. \<not> isspace c) s, dropWhile (\<lambda>c. \<not> isspace c) s)"
proof -
  obtain c cs where w: "w = c # cs" using assms(1) by (cases w) auto
  with assms(2) have "\<not> isspace c" by simp
  then have d: "dropWhile isspace (w @ s) = w @ s" by (simp add: w)
  show ?thesis using assms(2) by (simp add: extract_token_def d Let_def)
qed

lemma isspace_space: "isspace (CHR '' '')"
  by (simp add: isspace_def)

lemma extract_token_skip_space: "extract_token (CHR '' '' # s) = extract_token s"
  by (simp add: extract_token_def isspace_space)

lemma request_in_buffer:
  assumes "CHR 0x00 \<notin> set a" and "length a \<le> 4095"
  shows "takeWhile (\<lambda>c. c \<noteq> CHR 0x00) (take 4095 (a @ s))
           = a @ takeWhile (\<lambda>c. c \<noteq> CHR 0x00) (take (4095 - length a) s)"
proof -
  have "\<And>x. x \<in> set a \<Longrightarrow> x \<noteq> CHR 0x00" using assms(1) by auto
  then have "takeWhile (\<lambda>c. c \<noteq> CHR 0x00) (a @ take (4095 - length a) s)
      = a @ takeWhile (\<lambda>c. c \<noteq> CHR 0x00) (take (4095 - length a) s)"
    by (rule takeWhile_append2)
  with assms(2) show ?thesis by simp
qed

text \<open>
  A request that begins with a method, a space and a target that fit into the buffer:
  the method is passed on as it is, and the target ends at the first white space, at
  the first zero byte or at the end of the buffer.
\<close>

lemma handleClient_request_line:
  assumes m: "is_token m" and t: "is_token t" and len: "length m + 1 + length t \<le> 4095"
  shows "handleClient fs srv (m @ CHR '' '' # t @ s)
           = (let t' = t @ takeWhile (\<lambda>c. \<not> isspace c)
                          (takeWhile (\<lambda>c. c \<noteq> CHR 0x00)
                             (take (4095 - (length m + 1 + length t)) s))
              in Some (handleRequest fs srv m (fst (extract_query_parameters t'))
                         (snd (extract_query_parameters t'))))"
proof -
  let ?a = "m @ CHR '' '' # t"
  let ?s' = "takeWhile (\<lambda>c. c \<noteq> CHR 0x00) (take (4095 - (length m + 1 + length t)) s)"
  have nul: "CHR 0x00 \<notin> set ?a" using m t by (auto simp: is_token_def)
  have la: "length ?a \<le> 4095" using len by simp
  have req: "takeWhile (\<lambda>c. c \<noteq> CHR 0x00) (take 4095 (?a @ s)) = ?a @ ?s'"
    using request_in_buffer [OF nul la, of s] by simp
  have m1: "m \<noteq> []" "\<forall>c \<in> set m. \<not> isspace c" using m by (auto simp: is_token_def)
  have t1: "t \<noteq> []" "\<forall>c \<in> set t. \<not> isspace c" using t by (auto simp: is_token_def)
  have tok1: "extract_token (m @ CHR '' '' # t @ ?s') = (m, CHR '' '' # t @ ?s')"
    using extract_token_prefix [OF m1, of "CHR '' '' # t @ ?s'"] by (simp add: isspace_space)
  have tok2: "extract_token (CHR '' '' # t @ ?s')
      = (t @ takeWhile (\<lambda>c. \<not> isspace c) ?s', dropWhile (\<lambda>c. \<not> isspace c) ?s')"
    using extract_token_prefix [OF t1, of ?s'] by (simp add: extract_token_skip_space)
  have ne: "m @ CHR '' '' # t @ s \<noteq> []" by simp
  have "handleClient fs srv (?a @ s)
      = (let request = ?a @ ?s';
            (m, s1) = extract_token request;
            (p, s2) = extract_token s1;
            (version, s3) = extract_token s2;
            (p', params) = extract_query_parameters p
        in Some (handleRequest fs srv m p' params))"
    unfolding handleClient_def req using ne by simp
  also have "\<dots> = (let t' = t @ takeWhile (\<lambda>c. \<not> isspace c) ?s'
              in Some (handleRequest fs srv m (fst (extract_query_parameters t'))
                         (snd (extract_query_parameters t'))))"
    using tok1 tok2 by (simp add: Let_def split: prod.split)
  finally show ?thesis by simp
qed

lemma is_token_query_mark: "is_token p \<Longrightarrow> is_token (p @ ''?'')"
  by (auto simp: is_token_def isspace_def)

lemma token_end:
  assumes "rest = [] \<or> isspace (hd rest)"
  shows "takeWhile (\<lambda>c. \<not> isspace c) (takeWhile (\<lambda>c. c \<noteq> CHR 0x00) (take k rest)) = []"
proof (cases rest)
  case Nil
  then show ?thesis by simp
next
  case (Cons c cs)
  with assms have "isspace c" by simp
  then show ?thesis by (cases k) (auto simp: Cons isspace_def)
qed

lemma handleClient_bare_path:
  assumes "is_token m" and "is_token p" and "CHR ''?'' \<notin> set p"
    and "length m + 1 + length p \<le> 4095" and "rest = [] \<or> isspace (hd rest)"
  shows "handleClient fs srv (m @ CHR '' '' # p @ rest) = Some (handleRequest fs srv m p [])"
  using handleClient_request_line [OF assms(1,2,4), of fs srv rest] assms(3)
  by (simp add: token_end [OF assms(5)] extract_query_parameters_bare)

lemma handleClient_with_query:
  assumes "is_token m" and "is_token p" and "CHR ''?'' \<notin> set p"
    and "length m + 1 + length p + 1 \<le> 4095"
  shows "\<exists>params. handleClient fs srv (m @ CHR '' '' # p @ CHR ''?'' # q)
                    = Some (handleRequest fs srv m p params)"
proof -
  have len: "length m + 1 + length (p @ ''?'') \<le> 4095" using assms(4) by simp
  from handleClient_request_line [OF assms(1) is_token_query_mark [OF assms(2)] len, of fs srv q]
  show ?thesis using assms(3)
    by (auto simp add: extract_query_parameters_append Let_def)
qed

text \<open>
  Appending \<^verbatim>\<open>?\<close> and a query to what follows the method does not change the path
  that is cut out of it, whatever the two strings are.
\<close>

lemma takeWhile_query_mark:
  assumes "P (CHR ''?'')" and "query_mark r"
  shows "\<exists>r'. query_mark r' \<and> takeWhile P (x @ r) = takeWhile P x @ r'"
proof (induction x)
  case Nil
  show ?case
  proof (cases r)
    case Nil
    then show ?thesis by (simp add: query_mark_def)
  next
    case (Cons c cs)
    with assms have "takeWhile P r = CHR ''?'' # takeWhile P cs"
      by (simp add: query_mark_def)
    then show ?thesis by (auto simp: query_mark_def)
  qed
next
  case (Cons a x)
  show ?case
  proof (cases "P a")
    case True
    with Cons show ?thesis by auto
  next
    case False
    then have "takeWhile P ((a # x) @ r) = takeWhile P (a # x) @ []" by simp
    moreover have "query_mark []" by (simp add: query_mark_def)
    ultimately show ?thesis by blast
  qed
qed

lemma dropWhile_isspace_query_mark:
  "query_mark r \<Longrightarrow> dropWhile isspace (x @ r) = dropWhile isspace x @ r"
proof (induction x)
  case Nil
  then show ?case by (cases r) (auto simp: query_mark_def isspace_def)
next
  case (Cons a x)
  then show ?case by simp
qed

lemma takeWhile_not_query_mark:
  "query_mark r \<Longrightarrow>
   takeWhile (\<lambda>c. c \<noteq> CHR ''?'') (x @ r) = takeWhile (\<lambda>c. c \<noteq> CHR ''?'') x"
proof (induction x)
  case Nil
  then show ?case by (cases r) (auto simp: query_mark_def)
next
  case (Cons a x)
  then show ?case by simp
qed

lemma query_mark_take: "query_mark (take n (CHR ''?'' # q))"
  by (cases n) (simp_all add: query_mark_def)

lemma take_find_char:
  "(case find_char c t of Some i \<Rightarrow> take i t | None \<Rightarrow> t) = takeWhile (\<lambda>x. x \<noteq> c) t"
  by (induction t) (auto split: option.splits)

lemma fst_extract_query_parameters:
  "fst (extract_query_parameters t) = takeWhile (\<lambda>c. c \<noteq> CHR ''?'') t"
proof -
  have "fst (extract_query_parameters t)
      = (case find_char CHR ''?'' t of Some i \<Rightarrow> take i t | None \<Rightarrow> t)"
    by (simp add: extract_query_parameters_def split: option.splits)
  then show ?thesis by (simp only: take_find_char)
qed

text \<open>
  What \<^verbatim>\<open>handleClient\<close> does with a request that begins with a method and a space, as
  a function of what follows.
\<close>

lemma handleClient_method:
  assumes m: "is_token m" and len: "length m < 4095"
  shows "handleClient fs srv (m @ CHR '' '' # y)
           = (let t = fst (extract_token
                        (takeWhile (\<lambda>c. c \<noteq> CHR 0x00) (take (4095 - (length m + 1)) y)))
              in Some (handleRequest fs srv m (fst (extract_query_parameters t))
                         (snd (extract_query_parameters t))))"
proof -
  let ?y' = "takeWhile (\<lambda>c. c \<noteq> CHR 0x00) (take (4095 - (length m + 1)) y)"
  have nul: "CHR 0x00 \<notin> set (m @ '' '')" using m by (auto simp: is_token_def)
  have la: "length (m @ '' '') \<le> 4095" using len by simp
  have req: "takeWhile (\<lambda>c. c \<noteq> CHR 0x00) (take 4095 (m @ CHR '' '' # y)) = m @ CHR '' '' # ?y'"
    using request_in_buffer [OF nul la, of y] by simp
  have m1: "m \<noteq> []" "\<forall>c \<in> set m. \<not> isspace c" using m by (auto simp: is_token_def)
  have tok1: "extract_token (m @ CHR '' '' # ?y') = (m, CHR '' '' # ?y')"
    using extract_token_prefix [OF m1, of "CHR '' '' # ?y'"] by (simp add: isspace_space)
  have tok2: "extract_token (CHR '' '' # ?y') = extract_token ?y'"
    by (rule extract_token_skip_space)
  have ne: "m @ CHR '' '' # y \<noteq> []" by simp
  have "handleClient fs srv (m @ CHR '' '' # y)
      = (let request = m @ CHR '' '' # ?y';
            (m, s1) = extract_token request;
            (p, s2) = extract_token s1;
            (version, s3) = extract_token s2;
            (p', params) = extract_query_parameters p
        in Some (handleRequest fs srv m p' params))"
    unfolding handleClient_def req using ne by simp
  also have "\<dots> = (let t = fst (extract_token ?y')
              in Some (handleRequest fs srv m (fst (extract_query_parameters t))
                         (snd (extract_query_parameters t))))"
    using tok1 tok2 by (simp add: Let_def split: prod.split)
  finally show ?thesis by simp
qed

lemma fst_extract_token:
  "fst (extract_token s) = takeWhile (\<lambda>c. \<not> isspace c) (dropWhile isspace s)"
  by (simp add: extract_token_def Let_def)

lemma path_with_query:
  "fst (extract_query_parameters (fst (extract_token
      (takeWhile (\<lambda>c. c \<noteq> CHR 0x00) (take n (p @ CHR ''?'' # q))))))
   = fst (extract_query_parameters (fst (extract_token
      (takeWhile (\<lambda>c. c \<noteq> CHR 0x00) (take n p)))))"
proof -
  let ?N = "takeWhile (\<lambda>c. c \<noteq> CHR 0x00)"
  let ?D = "dropWhile isspace"
  let ?T = "takeWhile (\<lambda>c. \<not> isspace c)"
  let ?Q = "takeWhile (\<lambda>c. c \<noteq> CHR ''?'')"
  let ?r0 = "take (n - length p) (CHR ''?'' # q)"
  have a: "take n (p @ CHR ''?'' # q) = take n p @ ?r0"
    by simp
  have r0: "query_mark ?r0"
    by (rule query_mark_take)
  obtain r1 where r1: "query_mark r1" and n: "?N (take n p @ ?r0) = ?N (take n p) @ r1"
    using takeWhile_query_mark [of "\<lambda>c. c \<noteq> CHR 0x00" ?r0 "take n p"] r0 by auto
  have d: "?D (?N (take n p) @ r1) = ?D (?N (take n p)) @ r1"
    using r1 by (rule dropWhile_isspace_query_mark)
  obtain r2 where r2: "query_mark r2"
    and t: "?T (?D (?N (take n p)) @ r1) = ?T (?D (?N (take n p))) @ r2"
    using takeWhile_query_mark [of "\<lambda>c. \<not> isspace c" r1 "?D (?N (take n p))"] r1
    by (auto simp: isspace_def)
  have "?Q (?T (?D (?N (take n (p @ CHR ''?'' # q))))) = ?Q (?T (?D (?N (take n p @ ?r0))))"
    by (simp only: a)
  also have "\<dots> = ?Q (?T (?D (?N (take n p) @ r1)))"
    by (simp only: n)
  also have "\<dots> = ?Q (?T (?D (?N (take n p)) @ r1))"
    by (simp only: d)
  also have "\<dots> = ?Q (?T (?D (?N (take n p))) @ r2)"
    by (simp only: t)
  also have "\<dots> = ?Q (?T (?D (?N (take n p))))"
    using r2 by (rule takeWhile_not_query_mark)
  finally show ?thesis
    unfolding fst_extract_query_parameters fst_extract_token .
qed

lemma handleClient_same_path:
  assumes "is_token m" and "length m < 4095"
  shows "\<exists>p' params params'.
           handleClient fs srv (m @ CHR '' '' # p) = Some (handleRequest fs srv m p' params) \<and>
           handleClient fs srv (m @ CHR '' '' # p @ CHR ''?'' # q)
             = Some (handleRequest fs srv m p' params')"
proof -
  let ?k = "4095 - (length m + 1)"
  let ?t = "fst (extract_token (takeWhile (\<lambda>c. c \<noteq> CHR 0x00) (take ?k p)))"
  let ?tq = "fst (extract_token
               (takeWhile (\<lambda>c. c \<noteq> CHR 0x00) (take ?k (p @ CHR ''?'' # q))))"
  from handleClient_method [OF assms, of fs srv p]
  have 1: "handleClient fs srv (m @ CHR '' '' # p)
      = Some (handleRequest fs srv m (fst (extract_query_parameters ?t))
                (snd (extract_query_parameters ?t)))"
    unfolding Let_def .
  from handleClient_method [OF assms, of fs srv "p @ CHR ''?'' # q"]
  have 2: "handleClient fs srv (m @ CHR '' '' # p @ CHR ''?'' # q)
      = Some (handleRequest fs srv m (fst (extract_query_parameters ?tq))
                (snd (extract_query_parameters ?tq)))"
    unfolding Let_def by simp
  have 3: "fst (extract_query_parameters ?tq) = fst (extract_query_parameters ?t)"
    by (rule path_with_query)
  from 1 2 show ?thesis unfolding 3 by blast
qed

subsection \<open>Route matching\<close>

text \<open>
  Claim C4. Route matching is equality of strings on method and path, after the query
  string has been cut off.
  \<^item> The loop of \<^verbatim>\<open>handleRequest\<close> finds no route exactly when no registered route has
    the method and the path of the request; a path that differs from a registered
    path in any character does not select that route.
  \<^item> The route it finds is a registered one whose method and path equal those of the
    request, and the response carries what the handler of that route returns.
  \<^item> For a request that begins with a method \<open>m\<close>, a space and any string \<open>p\<close>,
    \<^verbatim>\<open>handleClient\<close> calls \<^verbatim>\<open>handleRequest\<close> with \<open>m\<close> and some path, and it calls it
    with \<open>m\<close> and the same path when \<^verbatim>\<open>?\<close> and any query string \<open>q\<close> are appended to
    \<open>p\<close>: both requests select the same route, hence the same handler.
  \<^item> When \<open>p\<close> is a token without \<^verbatim>\<open>?\<close> that fits into the buffer, that path is \<open>p\<close>,
    also when the rest of the request (a space, the version, the headers) follows.
\<close>

theorem route_matching_exact:
  "(find_route (routes srv) m p = None \<longleftrightarrow>
      (\<forall>route \<in> set (routes srv). route_method route \<noteq> m \<or> path route \<noteq> p)) \<and>
   (\<forall>route. find_route (routes srv) m p = Some route \<longrightarrow>
      route \<in> set (routes srv) \<and> route_method route = m \<and> path route = p \<and>
      (\<forall>params. handleRequest fs srv m p params
         = ''HTTP/1.1 200 OK'' @ CRLF @ ''Content-Type: application/json'' @ CRLF @
           cors_headers @ CRLF @ CRLF @ call_handler srv (handler route) params)) \<and>
   (is_token m \<and> length m < 4095 \<longrightarrow>
      (\<exists>p' params params'.
         handleClient fs srv (m @ CHR '' '' # p) = Some (handleRequest fs srv m p' params) \<and>
         handleClient fs srv (m @ CHR '' '' # p @ CHR ''?'' # q)
           = Some (handleRequest fs srv m p' params'))) \<and>
   (is_token m \<and> is_token p \<and> CHR ''?'' \<notin> set p \<and> length m + length p + 2 \<le> 4095 \<and>
    (rest = [] \<or> isspace (hd rest)) \<longrightarrow>
      handleClient fs srv (m @ CHR '' '' # p @ rest) = Some (handleRequest fs srv m p []) \<and>
      (\<exists>params. handleClient fs srv (m @ CHR '' '' # p @ CHR ''?'' # q)
                 = Some (handleRequest fs srv m p params)))"
proof (intro conjI allI impI)
  show "find_route (routes srv) m p = None \<longleftrightarrow>
      (\<forall>route \<in> set (routes srv). route_method route \<noteq> m \<or> path route \<noteq> p)"
    by (rule find_route_None_iff)
next
  fix route assume r: "find_route (routes srv) m p = Some route"
  from find_route_Some [OF r]
  show "route \<in> set (routes srv)" "route_method route = m" "path route = p" by simp_all
  fix params
  show "handleRequest fs srv m p params
         = ''HTTP/1.1 200 OK'' @ CRLF @ ''Content-Type: application/json'' @ CRLF @
           cors_headers @ CRLF @ CRLF @ call_handler srv (handler route) params"
    by (rule handleRequest_route [OF r])
next
  assume "is_token m \<and> length m < 4095"
  then show "\<exists>p' params params'.
         handleClient fs srv (m @ CHR '' '' # p) = Some (handleRequest fs srv m p' params) \<and>
         handleClient fs srv (m @ CHR '' '' # p @ CHR ''?'' # q)
           = Some (handleRequest fs srv m p' params')"
    by (intro handleClient_same_path) simp_all
next
  assume a: "is_token m \<and> is_token p \<and> CHR ''?'' \<notin> set p \<and> length m + length p + 2 \<le> 4095 \<and>
    (rest = [] \<or> isspace (hd rest))"
  then show "handleClient fs srv (m @ CHR '' '' # p @ rest) = Some (handleRequest fs srv m p [])"
    by (intro handleClient_bare_path) simp_all
  from a show "\<exists>params. handleClient fs srv (m @ CHR '' '' # p @ CHR ''?'' # q)
                 = Some (handleRequest fs srv m p params)"
    by (intro handleClient_with_query) simp_all
qed

text \<open>
  The routes that the constructor registers: \<^verbatim>\<open>GET /api/device\<close> finds none of them,
  and the request \<^verbatim>\<open>GET /api/status?x=1 HTTP/1.1\<close> is answered as
  \<^verbatim>\<open>GET /api/status HTTP/1.1\<close> is, by the status handler.
\<close>

theorem route_matching_exact_witness:
  \<open>find_route (routes (WebServer_new 7788)) ''GET'' ''/api/device'' = None \<and>
   find_route (routes (WebServer_new 7788)) ''GET'' ''/api/devices''
     = Some \<lparr>route_method = ''GET'', path = ''/api/devices'', handler = DevicesAPI\<rparr> \<and>
   is_token ''GET'' \<and> is_token ''/api/status'' \<and> CHR ''?'' \<notin> set ''/api/status'' \<and>
   handleClient Map.empty (WebServer_new 7788) (''GET /api/status?x=1 HTTP/1.1'' @ CRLF @ CRLF)
     = handleClient Map.empty (WebServer_new 7788) (''GET /api/status HTTP/1.1'' @ CRLF @ CRLF) \<and>
   handleClient Map.empty (WebServer_new 7788) (''GET /api/status HTTP/1.1'' @ CRLF @ CRLF)
     = Some (''HTTP/1.1 200 OK'' @ CRLF @ ''Content-Type: application/json'' @ CRLF @
             cors_headers @ CRLF @ CRLF @
             ''{"status": {"server": "online", "audio_engine": "offline", '' @
             ''"device_manager": "offline", "config_manager": "offline"}}'')\<close>
proof -
  let ?srv = "WebServer_new 7788"
  let ?rest = "'' HTTP/1.1'' @ CRLF @ CRLF"
  have n: "find_route (routes ?srv) ''GET'' ''/api/device'' = None"
    by (simp add: routes_WebServer_new)
  have d: "find_route (routes ?srv) ''GET'' ''/api/devices''
     = Some \<lparr>route_method = ''GET'', path = ''/api/devices'', handler = DevicesAPI\<rparr>"
    by (simp add: routes_WebServer_new)
  have s: "find_route (routes ?srv) ''GET'' ''/api/status''
     = Some \<lparr>route_method = ''GET'', path = ''/api/status'', handler = StatusAPI\<rparr>"
    by (simp add: routes_WebServer_new)
  have t: "is_token ''GET''" "is_token ''/api/status''" "CHR ''?'' \<notin> set ''/api/status''"
    by (simp_all add: is_token_def isspace_def)
  have r: "?rest = [] \<or> isspace (hd ?rest)"
    by (simp add: isspace_def)
  have c: "audio_engine ?srv = None" "device_manager ?srv = None" "config_manager ?srv = None"
    by (simp_all add: WebServer_new_def setupRoutes_def addRoute_def)
  note inst = route_matching_exact [where srv = ?srv and m = "''GET''" and p = "''/api/status''"
      and fs = Map.empty and rest = ?rest and q = "''x=1'' @ ?rest"]
  from inst s have h: "\<And>params. handleRequest Map.empty ?srv ''GET'' ''/api/status'' params
         = ''HTTP/1.1 200 OK'' @ CRLF @ ''Content-Type: application/json'' @ CRLF @
           cors_headers @ CRLF @ CRLF @ handleStatusAPI ?srv params"
    by simp
  have pre: "is_token ''GET'' \<and> is_token ''/api/status'' \<and> CHR ''?'' \<notin> set ''/api/status'' \<and>
      length ''GET'' + length ''/api/status'' + 2 \<le> 4095 \<and> (?rest = [] \<or> isspace (hd ?rest))"
    using t r by simp
  from inst [THEN conjunct2, THEN conjunct2, THEN conjunct2, THEN mp, OF pre]
  have b: "handleClient Map.empty ?srv (''GET'' @ CHR '' '' # ''/api/status'' @ ?rest)
       = Some (handleRequest Map.empty ?srv ''GET'' ''/api/status'' [])"
    and q: "\<exists>params.
       handleClient Map.empty ?srv
         (''GET'' @ CHR '' '' # ''/api/status'' @ CHR ''?'' # ''x=1'' @ ?rest)
       = Some (handleRequest Map.empty ?srv ''GET'' ''/api/status'' params)"
    by blast+
  from q obtain params where
    q': "handleClient Map.empty ?srv (''GET /api/status?x=1 HTTP/1.1'' @ CRLF @ CRLF)
       = Some (handleRequest Map.empty ?srv ''GET'' ''/api/status'' params)"
    by auto
  from b have b': "handleClient Map.empty ?srv (''GET /api/status HTTP/1.1'' @ CRLF @ CRLF)
       = Some (handleRequest Map.empty ?srv ''GET'' ''/api/status'' [])"
    by simp
  have st: \<open>\<And>params. handleStatusAPI ?srv params
      = ''{"status": {"server": "online", "audio_engine": "offline", '' @
        ''"device_manager": "offline", "config_manager": "offline"}}''\<close>
    by (simp add: handleStatusAPI_def c)
  from n d t show ?thesis
    unfolding b' q' h st by simp
qed

subsection \<open>Query parameters\<close>

lemma map_of_fold_update:
  "map_of (foldl (\<lambda>params (k, v). AList.update k v params) acc kvs) = map_of (rev kvs @ acc)"
proof (induction kvs arbitrary: acc)
  case Nil
  show ?case by simp
next
  case (Cons kv kvs)
  obtain k v where kv: "kv = (k, v)" by (cases kv)
  show ?case
    by (simp add: kv Cons.IH update_conv' map_add_def fun_eq_iff split: option.split)
qed

lemma distinct_fold_update:
  "distinct (map fst acc) \<Longrightarrow>
   distinct (map fst (foldl (\<lambda>params (k, v). AList.update k v params) acc kvs))"
  by (induction kvs arbitrary: acc) (auto simp: distinct_update)

lemma distinct_keys_parse_query: "distinct (map fst (parse_query q))"
  by (simp add: parse_query_def distinct_fold_update)

lemma map_of_last_match:
  assumes "kvs = before @ (k, v) # after" and "k \<notin> fst ` set after"
  shows "map_of (rev kvs) k = Some v"
proof -
  from assms(2) have "map_of (rev after) k = None"
    by (simp add: map_of_eq_None_iff)
  then show ?thesis by (simp add: assms(1) map_add_def)
qed

lemma single_entry:
  "distinct (map fst ps) \<Longrightarrow> map_of ps k = Some v \<Longrightarrow> filter (\<lambda>e. fst e = k) ps = [(k, v)]"
proof (induction ps)
  case Nil
  then show ?case by simp
next
  case (Cons e ps)
  show ?case
  proof (cases "fst e = k")
    case True
    with Cons.prems have "e = (k, v)" by (cases e) simp
    moreover from True Cons.prems(1) have "k \<notin> fst ` set ps" by auto
    then have "filter (\<lambda>e. fst e = k) ps = []" by (auto simp: filter_empty_conv)
    ultimately show ?thesis by simp
  next
    case False
    with Cons show ?thesis by (cases e) auto
  qed
qed

text \<open>
  On a query string of the usual form the matches of the pattern are the parameters,
  in the order in which they are written.
\<close>

lemma regex_match_at_pair:
  assumes "k \<noteq> []" and "\<forall>c \<in> set k. param_char c" and "\<forall>c \<in> set v. param_char c"
    and "rest = [] \<or> hd rest = CHR ''&''"
  shows "regex_match_at (k @ CHR ''='' # v @ rest) = Some (k, v, rest)"
proof -
  have e: "\<not> param_char (CHR ''='')" and a: "\<not> param_char (CHR ''&'')"
    by (simp_all add: param_char_def)
  have 1: "takeWhile param_char (k @ CHR ''='' # v @ rest) = k"
    using assms(2) e by simp
  have 2: "dropWhile param_char (k @ CHR ''='' # v @ rest) = CHR ''='' # v @ rest"
    using assms(2) e by simp
  have 3: "takeWhile param_char (v @ rest) = v"
    using assms(3,4) a by (cases rest) auto
  have 4: "dropWhile param_char (v @ rest) = rest"
    using assms(3,4) a by (cases rest) auto
  show ?thesis using assms(1) by (simp add: regex_match_at_def 1 2 3 4 Let_def)
qed

lemma regex_matches_pair:
  assumes "k \<noteq> []" and "\<forall>c \<in> set k. param_char c" and "\<forall>c \<in> set v. param_char c"
    and "rest = [] \<or> hd rest = CHR ''&''"
  shows "regex_matches (k @ CHR ''='' # v @ rest) = (k, v) # regex_matches rest"
proof -
  obtain c cs where k: "k = c # cs" using assms(1) by (cases k) auto
  have "regex_matches ((c # cs) @ CHR ''='' # v @ rest)
      = (case regex_match_at ((c # cs) @ CHR ''='' # v @ rest) of
           Some (k, v, rest) \<Rightarrow> (k, v) # regex_matches rest
         | None \<Rightarrow> regex_matches (cs @ CHR ''='' # v @ rest))"
    by simp
  then show ?thesis
    using regex_match_at_pair [OF assms] by (simp add: k)
qed

lemma regex_matches_amp: "regex_matches (CHR ''&'' # s) = regex_matches s"
  by (simp add: regex_match_at_def param_char_def)

lemma regex_matches_query_string:
  "\<forall>kv \<in> set kvs. well_formed_param kv \<Longrightarrow> regex_matches (query_string kvs) = kvs"
proof (induction kvs rule: query_string.induct)
  case 1
  show ?case by simp
next
  case (2 k v)
  then show ?case
    using regex_matches_pair [of k v "[]"] by (simp add: well_formed_param_def)
next
  case (3 k v kv kvs)
  then have "regex_matches (k @ CHR ''='' # v @ CHR ''&'' # query_string (kv # kvs))
      = (k, v) # regex_matches (CHR ''&'' # query_string (kv # kvs))"
    using regex_matches_pair [of k v "CHR ''&'' # query_string (kv # kvs)"]
    by (simp add: well_formed_param_def del: regex_matches.simps)
  with 3 show ?case by (simp add: regex_matches_amp del: regex_matches.simps)
qed

text \<open>
  Claim C8. Let \<open>(k, v)\<close> be the last match with the name \<open>k\<close> among the matches of the
  pattern in a query string, that is, the last occurrence of the parameter \<open>k\<close>. Then
  the parameter map that query parsing produces has exactly one entry for \<open>k\<close>, and
  it binds \<open>k\<close> to \<open>v\<close>. No key occurs twice in the map.
\<close>

theorem query_last_occurrence_wins:
  assumes "regex_matches q = before @ (k, v) # after" and "k \<notin> fst ` set after"
  shows "filter (\<lambda>e. fst e = k) (parse_query q) = [(k, v)] \<and>
         distinct (map fst (parse_query q))"
proof -
  have "map_of (parse_query q) k = map_of (rev (regex_matches q)) k"
    by (simp add: parse_query_def map_of_fold_update)
  also have "\<dots> = Some v" using assms by (rule map_of_last_match)
  finally show ?thesis
    using distinct_keys_parse_query [of q] by (simp add: single_entry)
qed

text \<open>The query string \<^verbatim>\<open>a=1&b=2&a=3\<close>: the parameter \<open>a\<close> is bound to \<open>3\<close>.\<close>

theorem query_last_occurrence_wins_witness:
  "query_string [(''a'', ''1''), (''b'', ''2''), (''a'', ''3'')] = ''a=1&b=2&a=3'' \<and>
   regex_matches ''a=1&b=2&a=3'' = [(''a'', ''1''), (''b'', ''2'')] @ (''a'', ''3'') # [] \<and>
   filter (\<lambda>e. fst e = ''a'') (parse_query ''a=1&b=2&a=3'') = [(''a'', ''3'')] \<and>
   distinct (map fst (parse_query ''a=1&b=2&a=3'')) \<and>
   parse_query ''a=1&b=2&a=3'' = [(''a'', ''3''), (''b'', ''2'')]"
proof -
  have w: "\<forall>kv \<in> set [(''a'', ''1''), (''b'', ''2''), (''a'', ''3'')]. well_formed_param kv"
    by (simp add: well_formed_param_def param_char_def)
  have s: "query_string [(''a'', ''1''), (''b'', ''2''), (''a'', ''3'')] = ''a=1&b=2&a=3''"
    by simp
  have m: "regex_matches ''a=1&b=2&a=3'' = [(''a'', ''1''), (''b'', ''2'')] @ (''a'', ''3'') # []"
    using regex_matches_query_string [OF w] unfolding s by simp
  have e: "''a'' \<notin> fst ` set ([] :: (string \<times> string) list)"
    by simp
  have p: "parse_query ''a=1&b=2&a=3'' = [(''a'', ''3''), (''b'', ''2'')]"
    unfolding parse_query_def m by simp
  from s m p query_last_occurrence_wins [OF m e] show ?thesis by simp
qed

end
